theory Spec2Isabelle
  imports Main "HOL-Library.Sublist"
begin

section \<open>Python values: strings, exceptions, indexing\<close>

text \<open>
  A Python \<open>str\<close> is a sequence of code points. It is modelled as an Isabelle
  \<open>string\<close>, each \<open>char\<close> standing for the code point of the same number, so the
  model covers the strings whose code points lie in U+0000..U+00FF.  The character classes
  below are those of Python 3 on that range.

  An exception is a value: its class and its message (what \<open>str(e)\<close> returns).  A
  function that may raise returns \<open>exc + 'a\<close>, with \<open>Inl\<close> for the exception.
\<close>

datatype exn_class =
  ValueError | IndexError | AttributeError | RuntimeError | JSONDecodeError | UnboundLocalError
  | BackendError

datatype exc = Exc exn_class string

fun exc_class :: "exc \<Rightarrow> exn_class" where
  "exc_class (Exc k m) = k"

fun exc_str :: "exc \<Rightarrow> string" where
  "exc_str (Exc k m) = m"

definition code_point :: "char \<Rightarrow> nat" where
  "code_point c = of_char c"

text \<open>\<open>\d\<close> of the \<open>re\<close> module: the decimal digits, \<open>0\<close> to \<open>9\<close> on this range.\<close>

definition re_digit :: "char \<Rightarrow> bool" where
  "re_digit c = (48 \<le> code_point c \<and> code_point c \<le> 57)"

text \<open>\<open>str.isdigit\<close>: the decimal digits and the superscripts U+00B2, U+00B3, U+00B9.\<close>

definition py_isdigit :: "char \<Rightarrow> bool" where
  "py_isdigit c = (re_digit c \<or> code_point c = 178 \<or> code_point c = 179 \<or> code_point c = 185)"

text \<open>
  \<open>str.isspace\<close>, which is also \<open>\s\<close> of the \<open>re\<close> module and what
  \<open>str.strip()\<close> removes: tab to carriage return, the separators U+001C..U+001F, the
  space, U+0085 and U+00A0.
\<close>

definition py_isspace :: "char \<Rightarrow> bool" where
  "py_isspace c =
     ((9 \<le> code_point c \<and> code_point c \<le> 13) \<or> (28 \<le> code_point c \<and> code_point c \<le> 32)
      \<or> code_point c = 133 \<or> code_point c = 160)"

definition strip :: "string \<Rightarrow> string" where
  "strip s = rev (dropWhile py_isspace (rev (dropWhile py_isspace s)))"

text \<open>\<open>int(d)\<close> for a string \<open>d\<close> of one character.\<close>

definition py_int_char :: "char \<Rightarrow> exc + int" where
  "py_int_char c =
     (if re_digit c then Inr (int (code_point c) - 48)
      else Inl (Exc ValueError ''invalid literal for int() with base 10''))"

text \<open>\<open>xs[i]\<close>: a negative index counts from the end, an index out of range raises.\<close>

definition py_index :: "'a list \<Rightarrow> int \<Rightarrow> exc + 'a" where
  "py_index xs i =
     (if 0 \<le> i \<and> i < int (length xs) then Inr (xs ! nat i)
      else if i < 0 \<and> - int (length xs) \<le> i then Inr (xs ! nat (int (length xs) + i))
      else Inl (Exc IndexError ''list index out of range''))"

section \<open>The checksum validator (app/utils.py)\<close>

text \<open>
  \<open>re.match(r"^[1-8]\d{12}$", cnp)\<close>.  In Python \<open>$\<close> matches at the end of the string
  and also just before a newline that ends the string.
\<close>

definition re_match_cnp :: "string \<Rightarrow> bool" where
  "re_match_cnp cnp =
     (case cnp of
        [] \<Rightarrow> False
      | c # cs \<Rightarrow>
          49 \<le> code_point c \<and> code_point c \<le> 56
          \<and> 12 \<le> length cs \<and> list_all re_digit (take 12 cs)
          \<and> (drop 12 cs = [] \<or> drop 12 cs = [CHR 0x0A]))"

definition control_weights :: "int list" where
  "control_weights = [2, 7, 9, 1, 4, 6, 3, 5, 8, 2, 7, 9]"

text \<open>\<open>[int(d) for d in cnp]\<close>\<close>

fun int_digits :: "string \<Rightarrow> exc + int list" where
  "int_digits [] = Inr []"
| "int_digits (d # ds) =
     (case py_int_char d of
        Inl e \<Rightarrow> Inl e
      | Inr v \<Rightarrow> (case int_digits ds of Inl e \<Rightarrow> Inl e | Inr vs \<Rightarrow> Inr (v # vs)))"

text \<open>\<open>sum(cnp_digits[i] * control_weights[i] for i in range(12))\<close>, over the indices given.\<close>

fun control_sum_over :: "int list \<Rightarrow> int list \<Rightarrow> nat list \<Rightarrow> int \<Rightarrow> exc + int" where
  "control_sum_over ds ws [] acc = Inr acc"
| "control_sum_over ds ws (i # is) acc =
     (case py_index ds (int i) of
        Inl e \<Rightarrow> Inl e
      | Inr d \<Rightarrow>
          (case py_index ws (int i) of
             Inl e \<Rightarrow> Inl e
           | Inr w \<Rightarrow> control_sum_over ds ws is (acc + d * w)))"

definition validate_cnp :: "string \<Rightarrow> exc + bool" where
  "validate_cnp cnp =
     (if cnp = [] \<or> \<not> re_match_cnp cnp then Inr False
      else
        (case int_digits cnp of
           Inl e \<Rightarrow> (if exc_class e = ValueError then Inr False else Inl e)
         | Inr cnp_digits \<Rightarrow>
             (case control_sum_over cnp_digits control_weights [0..<12] 0 of
                Inl e \<Rightarrow> Inl e
              | Inr control_sum \<Rightarrow>
                  (let control_digit = control_sum mod 11;
                       control_digit = (if control_digit = 10 then 1 else control_digit)
                   in (case py_index cnp_digits (- 1) of
                         Inl e \<Rightarrow> Inl e
                       | Inr last_digit \<Rightarrow> Inr (last_digit = control_digit))))))"

text \<open>
  The validator as the specification words it: the digit each character denotes, the
  first twelve multiplied elementwise by the weight vector, summed, reduced modulo 11,
  and 10 remapped to 1.
\<close>

definition digit_value :: "char \<Rightarrow> int" where
  "digit_value c = int (code_point c) - 48"

definition spec_checksum :: "string \<Rightarrow> int" where
  "spec_checksum s =
     (let r = sum_list (map2 (*) (take 12 (map digit_value s)) [2, 7, 9, 1, 4, 6, 3, 5, 8, 2, 7, 9])
              mod 11
      in if r = 10 then 1 else r)"

text \<open>The shape \<open>^[1-8]\d{12}$\<close> as the specification reads it: 13 characters, the first a
  digit from 1 to 8, the other twelve digits.\<close>

definition cnp_shape :: "string \<Rightarrow> bool" where
  "cnp_shape s =
     (length s = 13 \<and> 49 \<le> code_point (hd s) \<and> code_point (hd s) \<le> 56
      \<and> list_all re_digit (tl s))"

section \<open>The text normalizer (app/azure\_services.py, remove\_code\_blocks)\<close>

text \<open>
  The source searches with two regular expressions,
  \<^verbatim>\<open>```json\s*\n([\s\S]*?)\n```\<close> and \<^verbatim>\<open>```\s*\n([\s\S]*?)\n```\<close>, and returns
  group 1 of the first match, stripped.  The functions below follow the backtracking
  matcher of \<open>re.search\<close>: the leftmost start wins; at a start, \<open>\s*\<close> is greedy (it
  gives characters back one at a time) and the group is lazy (it grows one character at a
  time).
\<close>

definition newline :: char where
  "newline = CHR 0x0A"

definition closing_fence :: string where
  "closing_fence = newline # ''```''"

text \<open>\<^verbatim>\<open>([\s\S]*?)\n```\<close>: the shortest group after which the closing fence follows.\<close>

fun lazy_group :: "string \<Rightarrow> string option" where
  "lazy_group [] = None"
| "lazy_group (c # cs) =
     (if prefix closing_fence (c # cs) then Some []
      else map_option ((#) c) (lazy_group cs))"

text \<open>\<^verbatim>\<open>\s*\n([\s\S]*?)\n```\<close>: \<open>\s*\<close> first tries to take one more character; when
  the rest fails that way, it stops and the newline has to match here.\<close>

fun after_opener :: "string \<Rightarrow> string option" where
  "after_opener [] = None"
| "after_opener (c # cs) =
     (case (if py_isspace c then after_opener cs else None) of
        Some g \<Rightarrow> Some g
      | None \<Rightarrow> (if c = newline then lazy_group cs else None))"

text \<open>\<open>re.search\<close>: the pattern is tried at each position, from the left.\<close>

fun re_search_fence :: "string \<Rightarrow> string \<Rightarrow> string option" where
  "re_search_fence opener [] = None"
| "re_search_fence opener (c # cs) =
     (case (if prefix opener (c # cs) then after_opener (drop (length opener) (c # cs))
            else None) of
        Some g \<Rightarrow> Some g
      | None \<Rightarrow> re_search_fence opener cs)"

definition remove_code_blocks :: "string \<Rightarrow> string" where
  "remove_code_blocks text =
     (case re_search_fence ''```json'' text of
        Some g \<Rightarrow> strip g
      | None \<Rightarrow>
          (case re_search_fence ''```'' text of
             Some g \<Rightarrow> strip g
           | None \<Rightarrow> strip text))"

text \<open>
  The normalizer as the specification words it.  A fenced block with a given opener is
  the opener, any whitespace, a newline, the inner content, a newline and the closing
  fence; \<open>has_block\<close> says that one occurs somewhere in the text.
\<close>

definition has_block :: "string \<Rightarrow> string \<Rightarrow> bool" where
  "has_block opener s =
     (\<exists>pre ws inner post.
        s = pre @ opener @ ws @ [newline] @ inner @ closing_fence @ post
        \<and> list_all py_isspace ws)"

text \<open>
  \<open>first_block opener s inner\<close>: \<open>inner\<close> is the content of the first block of
  \<open>s\<close>, the first being the one that starts leftmost and, among the readings of the
  text from that start, takes the longest whitespace after the opener and then the
  shortest content.
\<close>

definition first_block :: "string \<Rightarrow> string \<Rightarrow> string \<Rightarrow> bool" where
  "first_block opener s inner =
     (\<exists>pre ws post.
        s = pre @ opener @ ws @ [newline] @ inner @ closing_fence @ post
        \<and> list_all py_isspace ws
        \<and> (\<forall>pre' ws' inner' post'.
              s = pre' @ opener @ ws' @ [newline] @ inner' @ closing_fence @ post'
              \<and> list_all py_isspace ws'
              \<longrightarrow> length pre \<le> length pre'
                  \<and> (length pre' = length pre
                       \<longrightarrow> length ws' \<le> length ws
                           \<and> (length ws' = length ws \<longrightarrow> length inner \<le> length inner'))))"

section \<open>The field value reader (get\_field\_value)\<close>

text \<open>The values a field can carry; a date or another object without \<open>strip\<close> behaves as
  the number does.\<close>

datatype pyval = PNone | PBool bool | PInt int | PStr string

fun truthy :: "pyval \<Rightarrow> bool" where
  "truthy PNone = False"
| "truthy (PBool b) = b"
| "truthy (PInt i) = (i \<noteq> 0)"
| "truthy (PStr s) = (s \<noteq> [])"

fun type_name :: "pyval \<Rightarrow> string" where
  "type_name PNone = ''NoneType''"
| "type_name (PBool b) = ''bool''"
| "type_name (PInt i) = ''int''"
| "type_name (PStr s) = ''str''"

definition quoted :: "string \<Rightarrow> string" where
  "quoted s = [CHR 0x27] @ s @ [CHR 0x27]"

text \<open>\<open>v.strip()\<close>: only a string has the method.\<close>

fun py_strip :: "pyval \<Rightarrow> exc + string" where
  "py_strip (PStr s) = Inr (strip s)"
| "py_strip v =
     Inl (Exc AttributeError (quoted (type_name v) @ '' object has no attribute '' @ quoted ''strip''))"

text \<open>\<open>d.get(k, default)\<close> on a dict given as an association list.\<close>

definition dict_get :: "('k \<times> 'v) list \<Rightarrow> 'k \<Rightarrow> 'v \<Rightarrow> 'v" where
  "dict_get d k dflt = (case map_of d k of None \<Rightarrow> dflt | Some v \<Rightarrow> v)"

text \<open>
  What \<open>document.fields.get(name)\<close> can give: \<open>None\<close>, a plain dict, or an object whose
  attribute \<open>value\<close> exists or not.
\<close>

datatype field = FieldNone | FieldDict "(string \<times> pyval) list" | FieldObject "pyval option"

definition get_field_value :: "field \<Rightarrow> exc + string" where
  "get_field_value field =
     (case field of
        FieldNone \<Rightarrow> Inr ''''
      | FieldDict d \<Rightarrow>
          (if d = [] then Inr ''''
           else if truthy (dict_get d ''value'' PNone)
                then py_strip (dict_get d ''value'' (PStr ''''))
                else Inr '''')
      | FieldObject a \<Rightarrow>
          (case a of
             None \<Rightarrow> Inr ''''
           | Some v \<Rightarrow> (if truthy v then py_strip v else Inr '''')))"

section \<open>The OCR backend and the ID document extractor (process\_id\_document)\<close>

text \<open>
  The result of \<open>begin_analyze_document(...).result()\<close>: the recognized documents, each
  with its dict of fields, and the pages with their lines.  The backend is a parameter:
  given the model id and the document bytes it returns a result or raises.
\<close>

record id_document =
  doc_fields :: "string \<rightharpoonup> field"

record ocr_line =
  content :: string

record ocr_page =
  lines :: "ocr_line list"

record analyze_result =
  documents :: "id_document list"
  pages :: "ocr_page list"

type_synonym ocr_backend = "string \<Rightarrow> string \<Rightarrow> exc + analyze_result"

text \<open>\<open>document.fields.get(name)\<close>\<close>

definition fields_get :: "id_document \<Rightarrow> string \<Rightarrow> field" where
  "fields_get document name = (case doc_fields document name of None \<Rightarrow> FieldNone | Some f \<Rightarrow> f)"

text \<open>The loop \<open>for document in result.documents\<close>: each round writes the three keys of
  \<open>extracted_data\<close>; an exception leaves the loop.\<close>

fun extract_documents ::
  "id_document list \<Rightarrow> (string \<rightharpoonup> string) \<Rightarrow> exc + (string \<rightharpoonup> string)" where
  "extract_documents [] extracted_data = Inr extracted_data"
| "extract_documents (document # rest) extracted_data =
     (case get_field_value (fields_get document ''FirstName'') of
        Inl e \<Rightarrow> Inl e
      | Inr first_name \<Rightarrow>
     (case get_field_value (fields_get document ''LastName'') of
        Inl e \<Rightarrow> Inl e
      | Inr last_name \<Rightarrow>
     (case get_field_value (fields_get document ''PersonalNumber'') of
        Inl e \<Rightarrow> Inl e
      | Inr cnp_raw \<Rightarrow>
          extract_documents rest
            (extracted_data(''first_name'' \<mapsto> first_name, ''last_name'' \<mapsto> last_name,
               ''cnp'' \<mapsto> filter py_isdigit cnp_raw)))))"

text \<open>The body of the \<open>try\<close> block.\<close>

definition id_document_body :: "ocr_backend \<Rightarrow> string \<Rightarrow> exc + (string \<rightharpoonup> string)" where
  "id_document_body analyze document_bytes =
     (case analyze ''prebuilt-idDocument'' document_bytes of
        Inl e \<Rightarrow> Inl e
      | Inr result \<Rightarrow> extract_documents (documents result) Map.empty)"

text \<open>\<open>except Exception as e: return {"error": str(e)}\<close>\<close>

definition error_result :: "exc \<Rightarrow> (string \<rightharpoonup> string)" where
  "error_result e = [''error'' \<mapsto> exc_str e]"

definition process_id_document :: "ocr_backend \<Rightarrow> string \<Rightarrow> (string \<rightharpoonup> string)" where
  "process_id_document analyze document_bytes =
     (case id_document_body analyze document_bytes of
        Inl e \<Rightarrow> error_result e
      | Inr extracted_data \<Rightarrow> extracted_data)"

section \<open>The handwritten document pipeline\<close>

text \<open>
  The completion backend is a parameter: given the messages (role and content) it returns
  the content of the first choice, or raises.  Every way of not getting a string there
  (the call raising, no choice, a content that is not a string) is an exception inside the
  same \<open>try\<close> block of the caller.
\<close>

type_synonym completion_backend = "(string \<times> string) list \<Rightarrow> exc + string"

text \<open>\<open>json.loads\<close> is a parameter too: it returns a JSON value or raises
  (\<open>JSONDecodeError\<close> on malformed text).\<close>

datatype json =
  JNull | JBool bool | JNumber int | JString string | JArray "json list"
  | JObject "(string \<times> json) list"

type_synonym json_parser = "string \<Rightarrow> exc + json"

text \<open>\<open>sep.join(xs)\<close>\<close>

fun py_join :: "string \<Rightarrow> string list \<Rightarrow> string" where
  "py_join sep [] = []"
| "py_join sep [x] = x"
| "py_join sep (x # y # ys) = x @ sep @ py_join sep (y # ys)"

definition startswith :: "string \<Rightarrow> string \<Rightarrow> bool" where
  "startswith s p = prefix p s"

definition endswith :: "string \<Rightarrow> string \<Rightarrow> bool" where
  "endswith s p = suffix p s"

definition clean_prompt :: "string \<Rightarrow> (string \<times> string) list" where
  "clean_prompt text =
     [(''system'', ''You are an AI assistant that helps people clean and format text.''),
      (''user'',
       ''Please clean the following OCR-extracted text by removing any extraneous characters, ''
       @ ''correcting grammatical errors, and ensuring proper punctuation while maintaining the original context and meaning.''
       @ [newline, newline] @ ''Text:'' @ [newline] @ text)]"

definition clean_text_with_openai :: "completion_backend \<Rightarrow> string \<Rightarrow> exc + string" where
  "clean_text_with_openai complete text =
     (case (case complete (clean_prompt text) of
              Inl e \<Rightarrow> Inl e
            | Inr response \<Rightarrow> Inr (remove_code_blocks (strip response))) of
        Inl e \<Rightarrow> Inl (Exc RuntimeError (''Error cleaning text with OpenAI: '' @ exc_str e))
      | Inr cleaned \<Rightarrow> Inr cleaned)"

definition extract_prompt :: "string \<Rightarrow> (string \<times> string) list" where
  "extract_prompt cleaned_text =
     [(''system'', ''You are an AI assistant that extracts specific information from text.''),
      (''user'',
       ''From the following text, extract the summary in Romanian Language only, first name, last name, and CNP. ''
       @ ''Return the results strictly in JSON format with the keys '' @ quoted ''summary''
       @ '', '' @ quoted ''first_name'' @ '', '' @ quoted ''last_name'' @ '', and ''
       @ quoted ''cnp'' @ ''. ''
       @ ''Do not include any additional text, explanations, or formatting. Do not use code blocks.''
       @ [newline, newline] @ ''Text:'' @ [newline] @ cleaned_text)]"

text \<open>The name of the Python type a parsed JSON value has (a number that is not an
  integer would be a \<open>float\<close>).\<close>

fun json_type_name :: "json \<Rightarrow> string" where
  "json_type_name JNull = ''NoneType''"
| "json_type_name (JBool b) = ''bool''"
| "json_type_name (JNumber n) = ''int''"
| "json_type_name (JString s) = ''str''"
| "json_type_name (JArray xs) = ''list''"
| "json_type_name (JObject kvs) = ''dict''"

definition no_attribute :: "string \<Rightarrow> string \<Rightarrow> exc" where
  "no_attribute type_nm attr =
     Exc AttributeError (quoted type_nm @ '' object has no attribute '' @ quoted attr)"

text \<open>\<open>metadata.get(key, "").strip()\<close>: the parsed value has to be a dict, and the entry,
  when there is one, a string.\<close>

definition metadata_get_strip :: "json \<Rightarrow> string \<Rightarrow> exc + string" where
  "metadata_get_strip metadata key =
     (case metadata of
        JObject kvs \<Rightarrow>
          (case dict_get kvs key (JString '''') of
             JString s \<Rightarrow> Inr (strip s)
           | v \<Rightarrow> Inl (no_attribute (json_type_name v) ''strip''))
      | v \<Rightarrow> Inl (no_attribute (json_type_name v) ''get''))"

text \<open>
  The \<open>try\<close> block of \<open>extract_fields_with_openai\<close> has two parts.  The first is the
  request: the call of the backend and the first assignment of \<open>content\<close>, the response
  stripped.  When it raises, the local variable \<open>content\<close> has no value yet.
\<close>

definition extract_fields_request :: "completion_backend \<Rightarrow> string \<Rightarrow> exc + string" where
  "extract_fields_request complete cleaned_text =
     (case complete (extract_prompt cleaned_text) of
        Inl e \<Rightarrow> Inl e
      | Inr response \<Rightarrow> Inr (strip response))"

text \<open>The second part, from \<open>content = remove_code_blocks(content)\<close> to the \<open>return\<close>.\<close>

definition extract_fields_parse ::
  "json_parser \<Rightarrow> string \<Rightarrow> exc + (string \<times> string \<times> string \<times> string)" where
  "extract_fields_parse json_loads stripped =
     (let content = remove_code_blocks stripped
      in if \<not> (startswith content ''{'' \<and> endswith content ''}'')
         then Inl (Exc RuntimeError ''OpenAI response is not valid JSON.'')
         else
           (case json_loads content of
              Inl e \<Rightarrow> Inl e
            | Inr metadata \<Rightarrow>
           (case metadata_get_strip metadata ''summary'' of
              Inl e \<Rightarrow> Inl e
            | Inr summary \<Rightarrow>
           (case metadata_get_strip metadata ''first_name'' of
              Inl e \<Rightarrow> Inl e
            | Inr first_name \<Rightarrow>
           (case metadata_get_strip metadata ''last_name'' of
              Inl e \<Rightarrow> Inl e
            | Inr last_name \<Rightarrow>
           (case metadata_get_strip metadata ''cnp'' of
              Inl e \<Rightarrow> Inl e
            | Inr cnp \<Rightarrow> Inr (summary, first_name, last_name, cnp)))))))"

text \<open>
  The two handlers: \<open>except json.JSONDecodeError\<close> first, then \<open>except Exception\<close>;
  each raises a \<open>RuntimeError\<close> with its own prefix.  The first handler formats
  \<open>content\<close> into a log line before it raises: when the exception came from the request,
  \<open>content\<close> has no value and that line raises \<open>UnboundLocalError\<close> instead (the
  message is the one of Python up to 3.10).
\<close>

definition json_error_handler :: "bool \<Rightarrow> exc \<Rightarrow> exc" where
  "json_error_handler content_bound jde =
     (if content_bound
      then Exc RuntimeError (''Error parsing JSON from OpenAI response: '' @ exc_str jde)
      else Exc UnboundLocalError
             (''local variable '' @ quoted ''content'' @ '' referenced before assignment''))"

definition extract_fields_handlers :: "bool \<Rightarrow> exc \<Rightarrow> exc" where
  "extract_fields_handlers content_bound e =
     (if exc_class e = JSONDecodeError then json_error_handler content_bound e
      else Exc RuntimeError (''Error extracting fields with OpenAI: '' @ exc_str e))"

definition extract_fields_with_openai ::
  "completion_backend \<Rightarrow> json_parser \<Rightarrow> string \<Rightarrow> exc + (string \<times> string \<times> string \<times> string)" where
  "extract_fields_with_openai complete json_loads cleaned_text =
     (case extract_fields_request complete cleaned_text of
        Inl e \<Rightarrow> Inl (extract_fields_handlers False e)
      | Inr stripped \<Rightarrow>
          (case extract_fields_parse json_loads stripped of
             Inl e \<Rightarrow> Inl (extract_fields_handlers True e)
           | Inr r \<Rightarrow> Inr r))"

definition ocr_text_of :: "analyze_result \<Rightarrow> string" where
  "ocr_text_of result = py_join [newline] (concat (map (\<lambda>page. map content (lines page)) (pages result)))"

definition handwritten_body ::
  "ocr_backend \<Rightarrow> completion_backend \<Rightarrow> json_parser \<Rightarrow> string \<Rightarrow> exc + (string \<rightharpoonup> string)" where
  "handwritten_body analyze complete json_loads document_bytes =
     (case analyze ''prebuilt-read'' document_bytes of
        Inl e \<Rightarrow> Inl e
      | Inr result \<Rightarrow>
     (case clean_text_with_openai complete (ocr_text_of result) of
        Inl e \<Rightarrow> Inl e
      | Inr cleaned_text \<Rightarrow>
     (case extract_fields_with_openai complete json_loads cleaned_text of
        Inl e \<Rightarrow> Inl e
      | Inr (summary, first_name, last_name, cnp) \<Rightarrow>
          Inr [''extracted_text'' \<mapsto> cleaned_text, ''summary'' \<mapsto> summary,
               ''first_name'' \<mapsto> first_name, ''last_name'' \<mapsto> last_name, ''cnp'' \<mapsto> cnp])))"

definition process_handwritten_document ::
  "ocr_backend \<Rightarrow> completion_backend \<Rightarrow> json_parser \<Rightarrow> string \<Rightarrow> (string \<rightharpoonup> string)" where
  "process_handwritten_document analyze complete json_loads document_bytes =
     (case handwritten_body analyze complete json_loads document_bytes of
        Inl e \<Rightarrow> error_result e
      | Inr r \<Rightarrow> r)"

text \<open>
  The value a field carries, as the specification reads it: the \<open>value\<close> entry of a
  mapping, the \<open>value\<close> attribute of an object, nothing for an absent field.
\<close>

definition spec_carried_value :: "field \<Rightarrow> pyval option" where
  "spec_carried_value field =
     (case field of
        FieldNone \<Rightarrow> None
      | FieldDict d \<Rightarrow> map_of d ''value''
      | FieldObject a \<Rightarrow> a)"

text \<open>Test data: a field object carrying a text, and a document with the three fields.\<close>

definition text_field :: "string \<Rightarrow> field" where
  "text_field v = FieldObject (Some (PStr v))"

definition identity_document :: "string \<Rightarrow> string \<Rightarrow> string \<Rightarrow> id_document" where
  "identity_document fn ln pn =
     \<lparr>doc_fields = [''FirstName'' \<mapsto> text_field fn, ''LastName'' \<mapsto> text_field ln,
                    ''PersonalNumber'' \<mapsto> text_field pn]\<rparr>"

definition recognizes :: "id_document list \<Rightarrow> ocr_backend" where
  "recognizes docs = (\<lambda>model_id document_bytes. Inr \<lparr>documents = docs, pages = []\<rparr>)"

text \<open>
  Test data: an OCR backend that reads the given lines on one page, and a completion
  backend that answers the cleaning request and the extraction request as given (the two
  requests differ in their system message).
\<close>

definition reads_lines :: "string list \<Rightarrow> ocr_backend" where
  "reads_lines ls =
     (\<lambda>model_id document_bytes.
        Inr \<lparr>documents = [], pages = [\<lparr>lines = map (\<lambda>l. \<lparr>content = l\<rparr>) ls\<rparr>]\<rparr>)"

definition scripted_backend :: "exc + string \<Rightarrow> exc + string \<Rightarrow> completion_backend" where
  "scripted_backend clean_reply extract_reply =
     (\<lambda>messages.
        if map fst messages = [''system'', ''user'']
           \<and> snd (hd messages) = ''You are an AI assistant that helps people clean and format text.''
        then clean_reply else extract_reply)"

definition failing_parser :: "string \<Rightarrow> json_parser" where
  "failing_parser msg = (\<lambda>text. Inl (Exc JSONDecodeError msg))"

definition unavailable :: "exc \<Rightarrow> ocr_backend" where
  "unavailable e = (\<lambda>model_id document_bytes. Inl e)"

section \<open>Properties of the checksum validator\<close>

lemma int_digits_all:
  "list_all re_digit s \<Longrightarrow> int_digits s = Inr (map digit_value s)"
  by (induction s) (auto simp: py_int_char_def digit_value_def)

lemma int_digits_bad:
  "\<not> list_all re_digit s \<Longrightarrow> \<exists>m. int_digits s = Inl (Exc ValueError m)"
  by (induction s) (auto simp: py_int_char_def split: sum.splits)

lemma control_sum_over_ok:
  "\<forall>i \<in> set is. i < length ds \<and> i < length ws \<Longrightarrow>
   control_sum_over ds ws is acc = Inr (acc + (\<Sum>i\<leftarrow>is. ds ! i * ws ! i))"
  by (induction "is" arbitrary: acc) (auto simp: py_index_def Let_def)

lemma map2_nth:
  "length ws = n \<Longrightarrow> n \<le> length ds \<Longrightarrow>
   map2 (*) (take n ds) ws = map (\<lambda>i. ds ! i * ws ! i :: int) [0..<n]"
  by (rule nth_equalityI) auto

lemma re_match_cnp_13:
  "length s = 13 \<Longrightarrow> re_match_cnp s \<longleftrightarrow> cnp_shape s"
  by (cases s) (auto simp: re_match_cnp_def cnp_shape_def)

lemma re_match_cnp_digits:
  "length s = 13 \<Longrightarrow> re_match_cnp s \<Longrightarrow> list_all re_digit s"
  by (cases s) (auto simp: re_match_cnp_def re_digit_def)

text \<open>
  C1.  On a string of 13 characters that matches the pattern, \<open>validate_cnp\<close> returns
  true exactly when the digit of the last character equals the checksum of the
  specification: the first twelve digits multiplied elementwise by the weights, summed,
  taken modulo 11, with 10 remapped to 1.  The source indexes both lists over
  \<open>range(12)\<close>; the specification pairs them elementwise.
\<close>

theorem validate_cnp_checksum:
  assumes len: "length s = 13" and m: "re_match_cnp s"
  shows "validate_cnp s = Inr (digit_value (s ! 12) = spec_checksum s)"
proof -
  let ?ds = "map digit_value s"
  have ne: "s \<noteq> []" using len by auto
  have dig: "int_digits s = Inr ?ds"
    using re_match_cnp_digits [OF len m] by (rule int_digits_all)
  have "\<forall>i \<in> set [0..<12]. i < length ?ds \<and> i < length control_weights"
    using len by (simp add: control_weights_def)
  then have cs: "control_sum_over ?ds control_weights [0..<12] 0
               = Inr (\<Sum>i\<leftarrow>[0..<12]. ?ds ! i * control_weights ! i)"
    using control_sum_over_ok [of "[0..<12]" ?ds control_weights 0] by simp
  have m2: "sum_list (map2 (*) (take 12 ?ds) control_weights)
           = (\<Sum>i\<leftarrow>[0..<12]. ?ds ! i * control_weights ! i)"
    using map2_nth [of control_weights 12 ?ds] len by (simp add: control_weights_def)
  have lst: "py_index ?ds (- 1) = Inr (digit_value (s ! 12))"
    using len by (simp add: py_index_def)
  show ?thesis
    unfolding validate_cnp_def spec_checksum_def
    using ne m dig cs lst m2 [unfolded control_weights_def]
    by (simp add: Let_def control_weights_def)
qed

text \<open>
  The witness is a code whose weighted sum is 10 modulo 11: it is accepted with the last
  digit 1 (the remapped value) and rejected with the last digit 0.
\<close>

theorem validate_cnp_checksum_witness:
  "length ''1008000000001'' = 13 \<and> re_match_cnp ''1008000000001''
   \<and> sum_list (map2 (*) (take 12 (map digit_value ''1008000000001''))
                  [2, 7, 9, 1, 4, 6, 3, 5, 8, 2, 7, 9]) mod 11 = 10
   \<and> validate_cnp ''1008000000001'' = Inr True
   \<and> validate_cnp ''1008000000000'' = Inr False"
proof -
  have l1: "length ''1008000000001'' = 13" by simp
  have r1: "re_match_cnp ''1008000000001''"
    by (simp add: re_match_cnp_def re_digit_def code_point_def)
  have l0: "length ''1008000000000'' = 13" by simp
  have r0: "re_match_cnp ''1008000000000''"
    by (simp add: re_match_cnp_def re_digit_def code_point_def)
  have s1: "sum_list (map2 (*) (take 12 (map digit_value ''1008000000001''))
                        [2, 7, 9, 1, 4, 6, 3, 5, 8, 2, 7, 9]) mod 11 = 10"
    by (simp add: digit_value_def code_point_def)
  have c1: "spec_checksum ''1008000000001'' = 1"
    by (simp add: spec_checksum_def digit_value_def code_point_def)
  have c0: "spec_checksum ''1008000000000'' = 1"
    by (simp add: spec_checksum_def digit_value_def code_point_def)
  show ?thesis
    using validate_cnp_checksum [OF l1 r1] validate_cnp_checksum [OF l0 r0] l1 r1 s1 c1 c0
    by (simp add: digit_value_def code_point_def)
qed

text \<open>
  C2.  On every string that is not 13 characters with a first digit from 1 to 8 and twelve
  more digits, \<open>validate_cnp\<close> returns false, as a value and not as an exception.  This
  includes the 14-character strings that Python's \<open>$\<close> lets through (a trailing
  newline): their \<open>int\<close> conversion raises ValueError, which the source catches.
\<close>

theorem validate_cnp_rejects:
  assumes "\<not> cnp_shape s"
  shows "validate_cnp s = Inr False"
proof (cases "s = [] \<or> \<not> re_match_cnp s")
  case True
  then show ?thesis by (simp add: validate_cnp_def)
next
  case False
  then have m: "re_match_cnp s" and ne: "s \<noteq> []" by auto
  have "length s \<noteq> 13" using assms m re_match_cnp_13 by blast
  then obtain c cs where s: "s = c # cs" and tl: "drop 12 cs = [CHR 0x0A]"
    using m by (cases s) (auto simp: re_match_cnp_def)
  have "\<not> list_all re_digit cs"
  proof
    assume a: "list_all re_digit cs"
    have "CHR 0x0A \<in> set (drop 12 cs)" using tl by simp
    then have "CHR 0x0A \<in> set cs" by (rule in_set_dropD)
    with a have "re_digit (CHR 0x0A)" by (simp add: list_all_iff)
    then show False by (simp add: re_digit_def code_point_def)
  qed
  then have "\<not> list_all re_digit s" using s by simp
  then obtain msg where "int_digits s = Inl (Exc ValueError msg)"
    using int_digits_bad by blast
  then show ?thesis using m ne by (simp add: validate_cnp_def)
qed

theorem validate_cnp_rejects_witness:
  "\<not> cnp_shape '''' \<and> validate_cnp '''' = Inr False
   \<and> \<not> cnp_shape ''9008000000001'' \<and> validate_cnp ''9008000000001'' = Inr False
   \<and> \<not> cnp_shape ''10080000000o1'' \<and> validate_cnp ''10080000000o1'' = Inr False
   \<and> \<not> cnp_shape (''1008000000001'' @ [CHR 0x0A])
   \<and> validate_cnp (''1008000000001'' @ [CHR 0x0A]) = Inr False"
proof -
  have a: "\<not> cnp_shape ''''" by (simp add: cnp_shape_def)
  have b: "\<not> cnp_shape ''9008000000001''" by (simp add: cnp_shape_def code_point_def)
  have c: "\<not> cnp_shape ''10080000000o1''"
    by (simp add: cnp_shape_def code_point_def re_digit_def)
  have d: "\<not> cnp_shape (''1008000000001'' @ [CHR 0x0A])" by (simp add: cnp_shape_def)
  show ?thesis
    using a b c d validate_cnp_rejects [OF a] validate_cnp_rejects [OF b]
      validate_cnp_rejects [OF c] validate_cnp_rejects [OF d]
    by simp
qed

section \<open>Properties of the field value reader\<close>

text \<open>
  C7, as stated, fails: a truthy value that is not a string (a number here; a date of the
  OCR backend behaves the same) reaches \<open>.strip()\<close> and raises AttributeError, from a
  mapping and from an object alike.
\<close>

theorem get_field_value_raises_counterexample:
  "get_field_value (FieldDict [(''value'', PInt 5)])
     = Inl (Exc AttributeError (quoted ''int'' @ '' object has no attribute '' @ quoted ''strip''))
   \<and> get_field_value (FieldObject (Some (PInt 5)))
     = Inl (Exc AttributeError (quoted ''int'' @ '' object has no attribute '' @ quoted ''strip''))"
  by (simp add: get_field_value_def dict_get_def)

text \<open>
  C7, amended.  When the value a field carries is a string or falsy, the reader raises
  nothing and returns the string trimmed: \<open>""\<close> for an absent field, for a mapping
  without a truthy \<open>value\<close> entry and for an object without a truthy \<open>value\<close>
  attribute.
\<close>

theorem get_field_value_text:
  assumes "\<forall>v. spec_carried_value field = Some v \<and> truthy v \<longrightarrow> (\<exists>s. v = PStr s)"
  shows "get_field_value field =
           Inr (case spec_carried_value field of Some (PStr s) \<Rightarrow> strip s | _ \<Rightarrow> '''')"
proof (cases field)
  case FieldNone
  then show ?thesis by (simp add: get_field_value_def spec_carried_value_def)
next
  case (FieldDict d)
  show ?thesis
  proof (cases "map_of d ''value''")
    case None
    then show ?thesis using FieldDict
      by (simp add: get_field_value_def spec_carried_value_def dict_get_def)
  next
    case (Some v)
    then have "d \<noteq> []" by auto
    moreover have "truthy v \<Longrightarrow> \<exists>s. v = PStr s"
      using assms FieldDict Some by (simp add: spec_carried_value_def)
    ultimately show ?thesis using FieldDict Some
      by (cases v) (auto simp: get_field_value_def spec_carried_value_def dict_get_def strip_def)
  qed
next
  case (FieldObject a)
  show ?thesis
  proof (cases a)
    case None
    then show ?thesis using FieldObject
      by (simp add: get_field_value_def spec_carried_value_def)
  next
    case (Some v)
    have "truthy v \<Longrightarrow> \<exists>s. v = PStr s"
      using assms FieldObject Some by (simp add: spec_carried_value_def)
    then show ?thesis using FieldObject Some
      by (cases v) (auto simp: get_field_value_def spec_carried_value_def strip_def)
  qed
qed

theorem get_field_value_text_witness:
  "spec_carried_value (FieldDict [(''value'', PStr ''  X '')]) = Some (PStr ''  X '')
   \<and> get_field_value (FieldDict [(''value'', PStr ''  X '')]) = Inr ''X''"
proof -
  have h: "\<forall>v. spec_carried_value (FieldDict [(''value'', PStr ''  X '')]) = Some v \<and> truthy v
        \<longrightarrow> (\<exists>s. v = PStr s)"
    by (simp add: spec_carried_value_def)
  show ?thesis
    using h get_field_value_text [OF h]
    by (simp add: spec_carried_value_def strip_def py_isspace_def code_point_def)
qed

section \<open>Properties of the ID document extractor\<close>




lemma get_field_value_text_object:
  "get_field_value (FieldObject (Some (PStr v))) = Inr (strip v)"
  by (simp add: get_field_value_def strip_def)

lemma extract_documents_step:
  assumes "extract_documents (document # rest) d0 = Inr r"
  obtains first_name last_name cnp_raw where
    "get_field_value (fields_get document ''FirstName'') = Inr first_name"
    "get_field_value (fields_get document ''LastName'') = Inr last_name"
    "get_field_value (fields_get document ''PersonalNumber'') = Inr cnp_raw"
    "extract_documents rest
       (d0(''first_name'' \<mapsto> first_name, ''last_name'' \<mapsto> last_name,
           ''cnp'' \<mapsto> filter py_isdigit cnp_raw)) = Inr r"
proof (cases "get_field_value (fields_get document ''FirstName'')")
  case (Inl e)
  with assms show ?thesis by simp
next
  case fn: (Inr first_name)
  show ?thesis
  proof (cases "get_field_value (fields_get document ''LastName'')")
    case (Inl e)
    with assms fn show ?thesis by simp
  next
    case ln: (Inr last_name)
    show ?thesis
    proof (cases "get_field_value (fields_get document ''PersonalNumber'')")
      case (Inl e)
      with assms fn ln show ?thesis by simp
    next
      case pn: (Inr cnp_raw)
      with assms fn ln have "extract_documents rest
       (d0(''first_name'' \<mapsto> first_name, ''last_name'' \<mapsto> last_name,
           ''cnp'' \<mapsto> filter py_isdigit cnp_raw)) = Inr r" by simp
      with fn ln pn that show ?thesis by blast
    qed
  qed
qed


lemma extract_documents_single:
  assumes "extract_documents [document] d0 = Inr r"
  shows "\<exists>first_name last_name cnp_raw.
           get_field_value (fields_get document ''FirstName'') = Inr first_name
         \<and> get_field_value (fields_get document ''LastName'') = Inr last_name
         \<and> get_field_value (fields_get document ''PersonalNumber'') = Inr cnp_raw
         \<and> r ''first_name'' = Some first_name \<and> r ''last_name'' = Some last_name
         \<and> r ''cnp'' = Some (filter py_isdigit cnp_raw)"
proof -
  from assms obtain fn ln raw where
    g: "get_field_value (fields_get document ''FirstName'') = Inr fn"
       "get_field_value (fields_get document ''LastName'') = Inr ln"
       "get_field_value (fields_get document ''PersonalNumber'') = Inr raw"
    and rec: "extract_documents []
                (d0(''first_name'' \<mapsto> fn, ''last_name'' \<mapsto> ln, ''cnp'' \<mapsto> filter py_isdigit raw)) = Inr r"
    by (rule extract_documents_step)
  from rec have r: "r = d0(''first_name'' \<mapsto> fn, ''last_name'' \<mapsto> ln, ''cnp'' \<mapsto> filter py_isdigit raw)"
    by simp
  have "r ''first_name'' = Some fn" unfolding r by simp
  moreover have "r ''last_name'' = Some ln" unfolding r by simp
  moreover have "r ''cnp'' = Some (filter py_isdigit raw)" unfolding r by simp
  ultimately show ?thesis using g by blast
qed

lemma extract_documents_last:
  assumes "extract_documents docs d0 = Inr r" and "docs \<noteq> []"
  shows "\<exists>first_name last_name cnp_raw.
           get_field_value (fields_get (last docs) ''FirstName'') = Inr first_name
         \<and> get_field_value (fields_get (last docs) ''LastName'') = Inr last_name
         \<and> get_field_value (fields_get (last docs) ''PersonalNumber'') = Inr cnp_raw
         \<and> r ''first_name'' = Some first_name \<and> r ''last_name'' = Some last_name
         \<and> r ''cnp'' = Some (filter py_isdigit cnp_raw)"
  using assms
proof (induction docs arbitrary: d0)
  case Nil
  then show ?case by simp
next
  case (Cons document rest)
  show ?case
  proof (cases "rest = []")
    case True
    with Cons.prems(1) have "extract_documents [document] d0 = Inr r" by simp
    from extract_documents_single [OF this] True show ?thesis by simp
  next
    case False
    from Cons.prems(1) obtain fn ln raw where
      rec: "extract_documents rest
                (d0(''first_name'' \<mapsto> fn, ''last_name'' \<mapsto> ln, ''cnp'' \<mapsto> filter py_isdigit raw)) = Inr r"
      by (rule extract_documents_step)
    from Cons.IH [OF rec False] False show ?thesis by simp
  qed
qed

lemma process_id_success:
  assumes "''error'' \<notin> dom (process_id_document analyze b)"
  shows "id_document_body analyze b = Inr (process_id_document analyze b)"
proof (cases "id_document_body analyze b")
  case (Inl e)
  then have "process_id_document analyze b ''error'' = Some (exc_str e)"
    by (simp add: process_id_document_def error_result_def)
  with assms show ?thesis by blast
next
  case (Inr r)
  then show ?thesis by (simp add: process_id_document_def)
qed


lemma identity_document_reads:
  "fields_get (identity_document fn ln pn) ''FirstName'' = text_field fn"
  "fields_get (identity_document fn ln pn) ''LastName'' = text_field ln"
  "fields_get (identity_document fn ln pn) ''PersonalNumber'' = text_field pn"
  by (simp_all add: fields_get_def identity_document_def)

lemma extract_identity_document:
  "extract_documents (identity_document fn ln pn # rest) d0 =
     extract_documents rest
       (d0(''first_name'' \<mapsto> strip fn, ''last_name'' \<mapsto> strip ln,
           ''cnp'' \<mapsto> filter py_isdigit (strip pn)))"
  by (simp add: identity_document_reads text_field_def get_field_value_text_object)

lemma process_recognizes:
  "process_id_document (recognizes docs) b =
     (case extract_documents docs Map.empty of Inl e \<Rightarrow> error_result e | Inr d \<Rightarrow> d)"
  by (simp add: process_id_document_def id_document_body_def recognizes_def)









text \<open>
  C9, as stated, fails when more than one document is recognized: the loop runs over all
  of them and each round overwrites the three keys, so the values returned are those of
  the last document, not of the first.
\<close>

theorem process_id_document_first_counterexample:
  "get_field_value
     (fields_get (hd [identity_document ''Ana'' ''Pop'' ''1'', identity_document ''Ion'' ''Rus'' ''2''])
        ''FirstName'') = Inr ''Ana''
   \<and> process_id_document
        (recognizes [identity_document ''Ana'' ''Pop'' ''1'', identity_document ''Ion'' ''Rus'' ''2''])
        '''' ''first_name'' = Some ''Ion''
   \<and> process_id_document
        (recognizes [identity_document ''Ana'' ''Pop'' ''1'', identity_document ''Ion'' ''Rus'' ''2''])
        '''' ''first_name'' \<noteq> Some ''Ana''"
proof -
  have s: "strip ''Ana'' = ''Ana''" "strip ''Ion'' = ''Ion''"
    by (simp_all add: strip_def py_isspace_def code_point_def)
  have a: "get_field_value
     (fields_get (hd [identity_document ''Ana'' ''Pop'' ''1'', identity_document ''Ion'' ''Rus'' ''2''])
        ''FirstName'') = Inr ''Ana''"
    by (simp add: identity_document_reads text_field_def get_field_value_text_object s)
  have b: "process_id_document
        (recognizes [identity_document ''Ana'' ''Pop'' ''1'', identity_document ''Ion'' ''Rus'' ''2''])
        '''' ''first_name'' = Some ''Ion''"
    by (simp add: process_recognizes extract_identity_document s del: extract_documents.simps(2))
  from a b show ?thesis by simp
qed

text \<open>
  C9, amended.  When one or more documents are recognized and the result has no
  \<open>error\<close> key, \<open>first_name\<close> and \<open>last_name\<close> are the FirstName and LastName values
  read from the last recognized document, and \<open>cnp\<close> is its PersonalNumber value with
  the non-digits removed.  With exactly one document the last is the first.
\<close>

theorem process_id_document_reads_last:
  assumes ok: "analyze ''prebuilt-idDocument'' b = Inr result"
    and docs: "documents result \<noteq> []"
    and success: "''error'' \<notin> dom (process_id_document analyze b)"
  shows "\<exists>first_name last_name cnp_raw.
           get_field_value (fields_get (last (documents result)) ''FirstName'') = Inr first_name
         \<and> get_field_value (fields_get (last (documents result)) ''LastName'') = Inr last_name
         \<and> get_field_value (fields_get (last (documents result)) ''PersonalNumber'') = Inr cnp_raw
         \<and> process_id_document analyze b ''first_name'' = Some first_name
         \<and> process_id_document analyze b ''last_name'' = Some last_name
         \<and> process_id_document analyze b ''cnp'' = Some (filter py_isdigit cnp_raw)
         \<and> (length (documents result) = 1 \<longrightarrow> last (documents result) = hd (documents result))"
proof -
  have "extract_documents (documents result) Map.empty = Inr (process_id_document analyze b)"
    using process_id_success [OF success] ok by (simp add: id_document_body_def)
  from extract_documents_last [OF this docs] obtain fn ln raw where
    "get_field_value (fields_get (last (documents result)) ''FirstName'') = Inr fn"
    "get_field_value (fields_get (last (documents result)) ''LastName'') = Inr ln"
    "get_field_value (fields_get (last (documents result)) ''PersonalNumber'') = Inr raw"
    "process_id_document analyze b ''first_name'' = Some fn"
    "process_id_document analyze b ''last_name'' = Some ln"
    "process_id_document analyze b ''cnp'' = Some (filter py_isdigit raw)"
    by blast
  moreover have "length (documents result) = 1 \<longrightarrow> last (documents result) = hd (documents result)"
    by (cases "documents result") auto
  ultimately show ?thesis by blast
qed

theorem process_id_document_reads_last_witness:
  "recognizes [identity_document ''Ana'' ''Pop'' ''1'', identity_document ''Ion'' ''Rus'' ''2'']
       ''prebuilt-idDocument'' ''''
     = Inr \<lparr>documents = [identity_document ''Ana'' ''Pop'' ''1'', identity_document ''Ion'' ''Rus'' ''2''],
            pages = []\<rparr>
   \<and> ''error'' \<notin> dom (process_id_document
         (recognizes [identity_document ''Ana'' ''Pop'' ''1'', identity_document ''Ion'' ''Rus'' ''2'']) '''')
   \<and> process_id_document
        (recognizes [identity_document ''Ana'' ''Pop'' ''1'', identity_document ''Ion'' ''Rus'' ''2''])
        '''' ''last_name'' = Some ''Rus''"
proof -
  let ?docs = "[identity_document ''Ana'' ''Pop'' ''1'', identity_document ''Ion'' ''Rus'' ''2'']"
  let ?res = "\<lparr>documents = ?docs, pages = []\<rparr>"
  have s: "strip ''Rus'' = ''Rus''"
    by (simp add: strip_def py_isspace_def code_point_def)
  have ok: "recognizes ?docs ''prebuilt-idDocument'' '''' = Inr ?res"
    by (simp add: recognizes_def)
  have docs: "documents ?res \<noteq> []" by simp
  have "process_id_document (recognizes ?docs) '''' ''error'' = None"
    by (simp add: process_recognizes extract_identity_document del: extract_documents.simps(2))
  then have success: "''error'' \<notin> dom (process_id_document (recognizes ?docs) '''')"
    by blast
  have f: "get_field_value (fields_get (last (documents ?res)) ''LastName'') = Inr ''Rus''"
    by (simp add: identity_document_reads text_field_def get_field_value_text_object s)
  from process_id_document_reads_last [OF ok docs success] f
  have "process_id_document (recognizes ?docs) '''' ''last_name'' = Some ''Rus''" by auto
  with ok success show ?thesis by simp
qed

text \<open>
  C10.  When the OCR backend returns and recognizes no document, the loop body never
  runs and the result is the empty mapping: none of \<open>first_name\<close>, \<open>last_name\<close>,
  \<open>cnp\<close>, and no \<open>error\<close> key.
\<close>

theorem process_id_document_no_documents:
  assumes "analyze ''prebuilt-idDocument'' b = Inr result" and "documents result = []"
  shows "process_id_document analyze b = Map.empty
         \<and> dom (process_id_document analyze b) = {}"
  using assms by (simp add: process_id_document_def id_document_body_def)

theorem process_id_document_no_documents_witness:
  "recognizes [] ''prebuilt-idDocument'' ''scan'' = Inr \<lparr>documents = [], pages = []\<rparr>
   \<and> documents \<lparr>documents = [], pages = []\<rparr> = []
   \<and> process_id_document (recognizes []) ''scan'' = Map.empty
   \<and> ''error'' \<notin> dom (process_id_document (recognizes []) ''scan'')
   \<and> ''cnp'' \<notin> dom (process_id_document (recognizes []) ''scan'')"
proof -
  have ok: "recognizes [] ''prebuilt-idDocument'' ''scan'' = Inr \<lparr>documents = [], pages = []\<rparr>"
    by (simp add: recognizes_def)
  have d: "documents \<lparr>documents = [] :: id_document list, pages = []\<rparr> = []" by simp
  from process_id_document_no_documents
      [of "recognizes []" "''scan''" "\<lparr>documents = [], pages = []\<rparr>", OF ok d] ok
  show ?thesis by simp
qed

section \<open>Properties of the handwritten document pipeline\<close>

lemma scripted_backend_clean:
  "scripted_backend clean_reply extract_reply (clean_prompt text) = clean_reply"
  by (simp add: scripted_backend_def clean_prompt_def)

lemma scripted_backend_extract:
  "scripted_backend clean_reply extract_reply (extract_prompt text) = extract_reply"
  by (simp add: scripted_backend_def extract_prompt_def)

lemma clean_text_raises:
  "complete (clean_prompt text) = Inl e \<Longrightarrow>
   clean_text_with_openai complete text =
     Inl (Exc RuntimeError (''Error cleaning text with OpenAI: '' @ exc_str e))"
  by (simp add: clean_text_with_openai_def)

lemma clean_text_returns:
  "complete (clean_prompt text) = Inr response \<Longrightarrow>
   clean_text_with_openai complete text = Inr (remove_code_blocks (strip response))"
  by (simp add: clean_text_with_openai_def)

lemma extract_fields_request_raises:
  "complete (extract_prompt cleaned_text) = Inl e \<Longrightarrow>
   extract_fields_with_openai complete json_loads cleaned_text
     = Inl (extract_fields_handlers False e)"
  by (simp add: extract_fields_with_openai_def extract_fields_request_def)

lemma extract_fields_parse_raises:
  "complete (extract_prompt cleaned_text) = Inr response \<Longrightarrow>
   extract_fields_parse json_loads (strip response) = Inl e \<Longrightarrow>
   extract_fields_with_openai complete json_loads cleaned_text
     = Inl (extract_fields_handlers True e)"
  by (simp add: extract_fields_with_openai_def extract_fields_request_def)

lemma extract_fields_parse_shape:
  assumes "\<not> (startswith (remove_code_blocks stripped) ''{''
            \<and> endswith (remove_code_blocks stripped) ''}'')"
  shows "extract_fields_parse json_loads stripped =
           Inl (Exc RuntimeError ''OpenAI response is not valid JSON.'')"
  using assms by (simp add: extract_fields_parse_def Let_def)

lemma extract_fields_parse_json:
  assumes "startswith (remove_code_blocks stripped) ''{''"
    and "endswith (remove_code_blocks stripped) ''}''"
    and "json_loads (remove_code_blocks stripped) = Inl e"
  shows "extract_fields_parse json_loads stripped = Inl e"
  using assms by (simp add: extract_fields_parse_def Let_def)

lemma handwritten_stage3_raises:
  assumes "analyze ''prebuilt-read'' b = Inr result"
    and "clean_text_with_openai complete (ocr_text_of result) = Inr cleaned_text"
    and "extract_fields_with_openai complete json_loads cleaned_text = Inl e"
  shows "process_handwritten_document analyze complete json_loads b = [''error'' \<mapsto> exc_str e]"
  using assms
  by (simp add: process_handwritten_document_def handwritten_body_def error_result_def)

lemma shape_failure_message:
  assumes resp: "complete (extract_prompt cleaned_text) = Inr response"
    and shape: "\<not> (startswith (remove_code_blocks (strip response)) ''{''
                    \<and> endswith (remove_code_blocks (strip response)) ''}'')"
  shows "extract_fields_with_openai complete json_loads cleaned_text
           = Inl (Exc RuntimeError
                    ''Error extracting fields with OpenAI: OpenAI response is not valid JSON.'')"
proof -
  have "extract_fields_parse json_loads (strip response)
          = Inl (Exc RuntimeError ''OpenAI response is not valid JSON.'')"
    using shape by (rule extract_fields_parse_shape)
  with resp have "extract_fields_with_openai complete json_loads cleaned_text
      = Inl (extract_fields_handlers True (Exc RuntimeError ''OpenAI response is not valid JSON.''))"
    by (rule extract_fields_parse_raises)
  then show ?thesis by (simp add: extract_fields_handlers_def)
qed

lemma parse_failure_message:
  assumes "complete (extract_prompt cleaned_text) = Inr response"
    and "startswith (remove_code_blocks (strip response)) ''{''"
    and "endswith (remove_code_blocks (strip response)) ''}''"
    and "json_loads (remove_code_blocks (strip response)) = Inl e"
    and "exc_class e = JSONDecodeError"
  shows "extract_fields_with_openai complete json_loads cleaned_text
           = Inl (Exc RuntimeError (''Error parsing JSON from OpenAI response: '' @ exc_str e))"
proof -
  have "extract_fields_parse json_loads (strip response) = Inl e"
    using assms(2-4) by (rule extract_fields_parse_json)
  with assms(1) have "extract_fields_with_openai complete json_loads cleaned_text
      = Inl (extract_fields_handlers True e)"
    by (rule extract_fields_parse_raises)
  with assms(5) show ?thesis
    by (simp add: extract_fields_handlers_def json_error_handler_def)
qed

lemma messages_differ:
  "Inl (Exc RuntimeError (''Error parsing JSON from OpenAI response: '' @ m))
     \<noteq> (Inl (Exc RuntimeError
              ''Error extracting fields with OpenAI: OpenAI response is not valid JSON.'')
          :: exc + (string \<times> string \<times> string \<times> string))"
  by simp

text \<open>
  C3.  When the completion content, stripped and normalized, does not both begin with
  \<open>{\<close> and end with \<open>}\<close>, the extraction stage raises its own RuntimeError; whatever
  \<open>json.loads\<close> would do has no part in the outcome (the parse is not reached).  The
  message differs from the one of every JSON parse failure, which starts with
  \<open>Error parsing JSON from OpenAI response\<close>, and the pipeline returns it under the
  \<open>error\<close> key rather than raising.
\<close>

theorem shape_failure_is_explicit:
  assumes resp: "complete (extract_prompt cleaned_text) = Inr response"
    and shape: "\<not> (startswith (remove_code_blocks (strip response)) ''{''
                    \<and> endswith (remove_code_blocks (strip response)) ''}'')"
  shows "extract_fields_with_openai complete json_loads cleaned_text
           = Inl (Exc RuntimeError
                    ''Error extracting fields with OpenAI: OpenAI response is not valid JSON.'')
       \<and> (\<forall>other_parser. extract_fields_with_openai complete other_parser cleaned_text
             = extract_fields_with_openai complete json_loads cleaned_text)
       \<and> (\<forall>complete' response' e.
             complete' (extract_prompt cleaned_text) = Inr response'
             \<and> startswith (remove_code_blocks (strip response')) ''{''
             \<and> endswith (remove_code_blocks (strip response')) ''}''
             \<and> json_loads (remove_code_blocks (strip response')) = Inl e
             \<and> exc_class e = JSONDecodeError
             \<longrightarrow> extract_fields_with_openai complete' json_loads cleaned_text
                   = Inl (Exc RuntimeError (''Error parsing JSON from OpenAI response: '' @ exc_str e))
                 \<and> extract_fields_with_openai complete' json_loads cleaned_text
                   \<noteq> extract_fields_with_openai complete json_loads cleaned_text)
       \<and> (\<forall>analyze b result.
             analyze ''prebuilt-read'' b = Inr result
             \<and> clean_text_with_openai complete (ocr_text_of result) = Inr cleaned_text
             \<longrightarrow> process_handwritten_document analyze complete json_loads b
                   = [''error'' \<mapsto>
                      ''Error extracting fields with OpenAI: OpenAI response is not valid JSON.''])"
    (is "?A \<and> ?B \<and> ?C \<and> ?D")
proof -
  have shape_msg: "extract_fields_with_openai complete p cleaned_text
           = Inl (Exc RuntimeError
                    ''Error extracting fields with OpenAI: OpenAI response is not valid JSON.'')" for p
    using resp shape by (rule shape_failure_message)
  have a: ?A by (rule shape_msg)
  have b: ?B by (simp only: shape_msg simp_thms)
  have c: ?C
  proof (intro allI impI, elim conjE)
    fix complete' :: completion_backend and response' e
    assume "complete' (extract_prompt cleaned_text) = Inr response'"
       "startswith (remove_code_blocks (strip response')) ''{''"
       "endswith (remove_code_blocks (strip response')) ''}''"
       "json_loads (remove_code_blocks (strip response')) = Inl e"
       "exc_class e = JSONDecodeError"
    then have p: "extract_fields_with_openai complete' json_loads cleaned_text
            = Inl (Exc RuntimeError (''Error parsing JSON from OpenAI response: '' @ exc_str e))"
      by (rule parse_failure_message)
    have "extract_fields_with_openai complete' json_loads cleaned_text
            \<noteq> extract_fields_with_openai complete json_loads cleaned_text"
      unfolding p shape_msg by (rule messages_differ)
    with p show "extract_fields_with_openai complete' json_loads cleaned_text
            = Inl (Exc RuntimeError (''Error parsing JSON from OpenAI response: '' @ exc_str e))
          \<and> extract_fields_with_openai complete' json_loads cleaned_text
            \<noteq> extract_fields_with_openai complete json_loads cleaned_text"
      by (rule conjI)
  qed
  have d: ?D
  proof (intro allI impI, elim conjE)
    fix analyze :: ocr_backend and b result
    assume "analyze ''prebuilt-read'' b = Inr result"
      "clean_text_with_openai complete (ocr_text_of result) = Inr cleaned_text"
    then have "process_handwritten_document analyze complete json_loads b
            = [''error'' \<mapsto> exc_str (Exc RuntimeError
                 ''Error extracting fields with OpenAI: OpenAI response is not valid JSON.'')]"
      using shape_msg by (rule handwritten_stage3_raises)
    then show "process_handwritten_document analyze complete json_loads b
            = [''error'' \<mapsto>
                 ''Error extracting fields with OpenAI: OpenAI response is not valid JSON.'']"
      by (simp only: exc_str.simps)
  qed
  from a b c d show ?thesis by (intro conjI)
qed

lemma re_search_fence_absent:
  "c0 \<notin> set s \<Longrightarrow> re_search_fence (c0 # opener) s = None"
  by (induction s) auto

lemma remove_code_blocks_no_backtick:
  "CHR 0x60 \<notin> set s \<Longrightarrow> remove_code_blocks s = strip s"
  by (simp add: remove_code_blocks_def re_search_fence_absent)

theorem shape_failure_is_explicit_witness:
  "scripted_backend (Inr ''Ana Pop'') (Inr ''I cannot help'') (extract_prompt ''Ana Pop'')
     = Inr ''I cannot help''
   \<and> remove_code_blocks (strip ''I cannot help'') = ''I cannot help''
   \<and> process_handwritten_document (reads_lines [''Ana Pop''])
        (scripted_backend (Inr ''Ana Pop'') (Inr ''I cannot help''))
        (failing_parser ''Expecting value'') ''scan''
       = [''error'' \<mapsto> ''Error extracting fields with OpenAI: OpenAI response is not valid JSON.'']
   \<and> extract_fields_with_openai (scripted_backend (Inr ''Ana Pop'') (Inr ''{oops}''))
        (failing_parser ''Expecting value'') ''Ana Pop''
       = Inl (Exc RuntimeError ''Error parsing JSON from OpenAI response: Expecting value'')"
proof -
  let ?complete = "scripted_backend (Inr ''Ana Pop'') (Inr ''I cannot help'')"
  let ?parser = "failing_parser ''Expecting value''"
  have s1: "strip ''I cannot help'' = ''I cannot help''" and s2: "strip ''Ana Pop'' = ''Ana Pop''"
    and s3: "strip ''{oops}'' = ''{oops}''"
    by (simp_all add: strip_def py_isspace_def code_point_def)
  have n1: "remove_code_blocks ''I cannot help'' = ''I cannot help''"
    and n2: "remove_code_blocks ''Ana Pop'' = ''Ana Pop''"
    and n3: "remove_code_blocks ''{oops}'' = ''{oops}''"
    by (simp_all add: remove_code_blocks_no_backtick s1 s2 s3)
  have resp: "?complete (extract_prompt ''Ana Pop'') = Inr ''I cannot help''"
    by (rule scripted_backend_extract)
  have shape: "\<not> (startswith (remove_code_blocks (strip ''I cannot help'')) ''{''
                 \<and> endswith (remove_code_blocks (strip ''I cannot help'')) ''}'')"
    by (simp add: s1 n1 startswith_def)
  have ocr: "reads_lines [''Ana Pop''] ''prebuilt-read'' ''scan''
               = Inr \<lparr>documents = [], pages = [\<lparr>lines = [\<lparr>content = ''Ana Pop''\<rparr>]\<rparr>]\<rparr>"
    by (simp add: reads_lines_def)
  have joined: "ocr_text_of \<lparr>documents = [], pages = [\<lparr>lines = [\<lparr>content = ''Ana Pop''\<rparr>]\<rparr>]\<rparr>
               = ''Ana Pop''"
    by (simp add: ocr_text_of_def)
  have "?complete (clean_prompt ''Ana Pop'') = Inr ''Ana Pop''"
    by (rule scripted_backend_clean)
  then have "clean_text_with_openai ?complete ''Ana Pop''
               = Inr (remove_code_blocks (strip ''Ana Pop''))"
    by (rule clean_text_returns)
  then have cl: "clean_text_with_openai ?complete
       (ocr_text_of \<lparr>documents = [], pages = [\<lparr>lines = [\<lparr>content = ''Ana Pop''\<rparr>]\<rparr>]\<rparr>)
         = Inr ''Ana Pop''"
    by (simp only: joined s2 n2)
  have resp': "scripted_backend (Inr ''Ana Pop'') (Inr ''{oops}'') (extract_prompt ''Ana Pop'')
                 = Inr ''{oops}''"
    by (rule scripted_backend_extract)
  have ok1: "startswith (remove_code_blocks (strip ''{oops}'')) ''{''"
    by (simp add: s3 n3 startswith_def)
  have ok2: "endswith (remove_code_blocks (strip ''{oops}'')) ''}''"
    by (simp add: s3 n3 endswith_def suffix_to_prefix)
  have ok3: "?parser (remove_code_blocks (strip ''{oops}'')) = Inl (Exc JSONDecodeError ''Expecting value'')"
    by (simp add: failing_parser_def)
  have ok4: "exc_class (Exc JSONDecodeError ''Expecting value'') = JSONDecodeError"
    by simp
  note inst = shape_failure_is_explicit [of ?complete "''Ana Pop''" "''I cannot help''" ?parser,
      OF resp shape]
  note c = inst [THEN conjunct2, THEN conjunct2, THEN conjunct1, rule_format]
  note d = inst [THEN conjunct2, THEN conjunct2, THEN conjunct2, rule_format]
  have pipe: "process_handwritten_document (reads_lines [''Ana Pop'']) ?complete ?parser ''scan''
       = [''error'' \<mapsto> ''Error extracting fields with OpenAI: OpenAI response is not valid JSON.'']"
    by (rule d, rule conjI, rule ocr, rule cl)
  have "extract_fields_with_openai (scripted_backend (Inr ''Ana Pop'') (Inr ''{oops}''))
        ?parser ''Ana Pop''
       = Inl (Exc RuntimeError (''Error parsing JSON from OpenAI response: ''
                @ exc_str (Exc JSONDecodeError ''Expecting value'')))"
    by (rule c [THEN conjunct1])
      (rule conjI, rule resp', rule conjI, rule ok1, rule conjI, rule ok2, rule conjI, rule ok3,
       rule ok4)
  then have parse: "extract_fields_with_openai (scripted_backend (Inr ''Ana Pop'') (Inr ''{oops}''))
        ?parser ''Ana Pop''
       = Inl (Exc RuntimeError ''Error parsing JSON from OpenAI response: Expecting value'')"
    by simp
  have sn: "remove_code_blocks (strip ''I cannot help'') = ''I cannot help''"
    by (simp only: s1 n1)
  show ?thesis
  proof (intro conjI)
    show "scripted_backend (Inr ''Ana Pop'') (Inr ''I cannot help'') (extract_prompt ''Ana Pop'')
     = Inr ''I cannot help''" by (fact resp)
    show "remove_code_blocks (strip ''I cannot help'') = ''I cannot help''" by (fact sn)
    show "process_handwritten_document (reads_lines [''Ana Pop''])
        (scripted_backend (Inr ''Ana Pop'') (Inr ''I cannot help''))
        (failing_parser ''Expecting value'') ''scan''
       = [''error'' \<mapsto> ''Error extracting fields with OpenAI: OpenAI response is not valid JSON.'']"
      by (fact pipe)
    show "extract_fields_with_openai (scripted_backend (Inr ''Ana Pop'') (Inr ''{oops}''))
        (failing_parser ''Expecting value'') ''Ana Pop''
       = Inl (Exc RuntimeError ''Error parsing JSON from OpenAI response: Expecting value'')"
      by (fact parse)
  qed
qed
lemma id_body_raises:
  "id_document_body analyze b = Inl e \<Longrightarrow>
   process_id_document analyze b = [''error'' \<mapsto> exc_str e]"
  by (simp add: process_id_document_def error_result_def)

lemma handwritten_body_raises:
  "handwritten_body analyze complete json_loads b = Inl e \<Longrightarrow>
   process_handwritten_document analyze complete json_loads b = [''error'' \<mapsto> exc_str e]"
  by (simp add: process_handwritten_document_def error_result_def)

lemma id_ocr_raises:
  "analyze ''prebuilt-idDocument'' b = Inl e \<Longrightarrow>
   process_id_document analyze b = [''error'' \<mapsto> exc_str e]"
  by (rule id_body_raises) (simp add: id_document_body_def)

lemma id_field_raises:
  "analyze ''prebuilt-idDocument'' b = Inr result \<Longrightarrow>
   extract_documents (documents result) Map.empty = Inl e \<Longrightarrow>
   process_id_document analyze b = [''error'' \<mapsto> exc_str e]"
  by (rule id_body_raises) (simp add: id_document_body_def)

lemma handwritten_ocr_raises:
  "analyze ''prebuilt-read'' b = Inl e \<Longrightarrow>
   process_handwritten_document analyze complete json_loads b = [''error'' \<mapsto> exc_str e]"
  by (rule handwritten_body_raises) (simp add: handwritten_body_def)

lemma handwritten_clean_raises:
  assumes "analyze ''prebuilt-read'' b = Inr result"
    and "complete (clean_prompt (ocr_text_of result)) = Inl e"
  shows "process_handwritten_document analyze complete json_loads b
           = [''error'' \<mapsto> ''Error cleaning text with OpenAI: '' @ exc_str e]"
proof -
  have "handwritten_body analyze complete json_loads b
          = Inl (Exc RuntimeError (''Error cleaning text with OpenAI: '' @ exc_str e))"
    using assms(1) clean_text_raises [of complete "ocr_text_of result" e, OF assms(2)]
    by (simp add: handwritten_body_def)
  from handwritten_body_raises [OF this] show ?thesis by simp
qed

lemma handlers_bound_message:
  "exc_str (extract_fields_handlers True e)
     = (if exc_class e = JSONDecodeError then ''Error parsing JSON from OpenAI response: ''
        else ''Error extracting fields with OpenAI: '') @ exc_str e"
  by (simp add: extract_fields_handlers_def json_error_handler_def)

lemma handlers_other_message:
  "exc_class e \<noteq> JSONDecodeError \<Longrightarrow>
   exc_str (extract_fields_handlers content_bound e)
     = ''Error extracting fields with OpenAI: '' @ exc_str e"
  by (simp add: extract_fields_handlers_def)

lemma handwritten_request_raises:
  assumes "analyze ''prebuilt-read'' b = Inr result"
    and "clean_text_with_openai complete (ocr_text_of result) = Inr cleaned_text"
    and "complete (extract_prompt cleaned_text) = Inl e"
  shows "process_handwritten_document analyze complete json_loads b
           = [''error'' \<mapsto> exc_str (extract_fields_handlers False e)]"
proof -
  have "extract_fields_with_openai complete json_loads cleaned_text
          = Inl (extract_fields_handlers False e)"
    using assms(3) by (rule extract_fields_request_raises)
  with assms(1,2) show ?thesis by (rule handwritten_stage3_raises)
qed

lemma handwritten_parse_raises:
  assumes "analyze ''prebuilt-read'' b = Inr result"
    and "clean_text_with_openai complete (ocr_text_of result) = Inr cleaned_text"
    and "complete (extract_prompt cleaned_text) = Inr response"
    and "extract_fields_parse json_loads (strip response) = Inl e"
  shows "process_handwritten_document analyze complete json_loads b
           = [''error'' \<mapsto>
                (if exc_class e = JSONDecodeError then ''Error parsing JSON from OpenAI response: ''
                 else ''Error extracting fields with OpenAI: '') @ exc_str e]"
proof -
  have "extract_fields_with_openai complete json_loads cleaned_text
          = Inl (extract_fields_handlers True e)"
    using assms(3,4) by (rule extract_fields_parse_raises)
  with assms(1,2) have "process_handwritten_document analyze complete json_loads b
           = [''error'' \<mapsto> exc_str (extract_fields_handlers True e)]"
    by (rule handwritten_stage3_raises)
  then show ?thesis by (simp only: handlers_bound_message)
qed

text \<open>
  What the pipelines do with each failure.  Whatever exception leaves the body of a
  pipeline is returned as a mapping with the \<open>error\<close> key.  The message is the one of
  the underlying exception, behind the prefix of the stage that wrapped it, for: a failure
  of the OCR backend or of a field read in \<open>process_id_document\<close>; a failure of the OCR
  backend, of the cleaning request, of the extraction request (other than a
  \<open>JSONDecodeError\<close>), the shape failure, a failure of \<open>json.loads\<close> and any other
  exception after the response has arrived, in \<open>process_handwritten_document\<close>.
\<close>

theorem pipeline_failures_are_caught:
  fixes analyze :: ocr_backend and complete :: completion_backend and json_loads :: json_parser
  shows
  "(\<forall>e. id_document_body analyze b = Inl e
        \<longrightarrow> process_id_document analyze b = [''error'' \<mapsto> exc_str e])
   \<and> (\<forall>e. handwritten_body analyze complete json_loads b = Inl e
        \<longrightarrow> process_handwritten_document analyze complete json_loads b
              = [''error'' \<mapsto> exc_str e])
   \<and> (\<forall>e. analyze ''prebuilt-idDocument'' b = Inl e
        \<longrightarrow> process_id_document analyze b = [''error'' \<mapsto> exc_str e])
   \<and> (\<forall>result e. analyze ''prebuilt-idDocument'' b = Inr result
          \<and> extract_documents (documents result) Map.empty = Inl e
        \<longrightarrow> process_id_document analyze b = [''error'' \<mapsto> exc_str e])
   \<and> (\<forall>e. analyze ''prebuilt-read'' b = Inl e
        \<longrightarrow> process_handwritten_document analyze complete json_loads b
              = [''error'' \<mapsto> exc_str e])
   \<and> (\<forall>result e. analyze ''prebuilt-read'' b = Inr result
          \<and> complete (clean_prompt (ocr_text_of result)) = Inl e
        \<longrightarrow> process_handwritten_document analyze complete json_loads b
              = [''error'' \<mapsto> ''Error cleaning text with OpenAI: '' @ exc_str e])
   \<and> (\<forall>result cleaned_text e. analyze ''prebuilt-read'' b = Inr result
          \<and> clean_text_with_openai complete (ocr_text_of result) = Inr cleaned_text
          \<and> complete (extract_prompt cleaned_text) = Inl e
          \<and> exc_class e \<noteq> JSONDecodeError
        \<longrightarrow> process_handwritten_document analyze complete json_loads b
              = [''error'' \<mapsto> ''Error extracting fields with OpenAI: '' @ exc_str e])
   \<and> (\<forall>result cleaned_text response. analyze ''prebuilt-read'' b = Inr result
          \<and> clean_text_with_openai complete (ocr_text_of result) = Inr cleaned_text
          \<and> complete (extract_prompt cleaned_text) = Inr response
          \<and> \<not> (startswith (remove_code_blocks (strip response)) ''{''
                \<and> endswith (remove_code_blocks (strip response)) ''}'')
        \<longrightarrow> process_handwritten_document analyze complete json_loads b
              = [''error'' \<mapsto>
                   ''Error extracting fields with OpenAI: OpenAI response is not valid JSON.''])
   \<and> (\<forall>result cleaned_text response e. analyze ''prebuilt-read'' b = Inr result
          \<and> clean_text_with_openai complete (ocr_text_of result) = Inr cleaned_text
          \<and> complete (extract_prompt cleaned_text) = Inr response
          \<and> startswith (remove_code_blocks (strip response)) ''{''
          \<and> endswith (remove_code_blocks (strip response)) ''}''
          \<and> json_loads (remove_code_blocks (strip response)) = Inl e
        \<longrightarrow> process_handwritten_document analyze complete json_loads b
              = [''error'' \<mapsto>
                   (if exc_class e = JSONDecodeError
                    then ''Error parsing JSON from OpenAI response: ''
                    else ''Error extracting fields with OpenAI: '') @ exc_str e])
   \<and> (\<forall>result cleaned_text response e. analyze ''prebuilt-read'' b = Inr result
          \<and> clean_text_with_openai complete (ocr_text_of result) = Inr cleaned_text
          \<and> complete (extract_prompt cleaned_text) = Inr response
          \<and> extract_fields_parse json_loads (strip response) = Inl e
        \<longrightarrow> process_handwritten_document analyze complete json_loads b
              = [''error'' \<mapsto>
                   (if exc_class e = JSONDecodeError
                    then ''Error parsing JSON from OpenAI response: ''
                    else ''Error extracting fields with OpenAI: '') @ exc_str e])"
  (is "?I0 \<and> ?H0 \<and> ?I1 \<and> ?I2 \<and> ?H1 \<and> ?H2 \<and> ?H3 \<and> ?H4 \<and> ?H5 \<and> ?H6")
proof -
  have i0: ?I0 by (intro allI impI) (rule id_body_raises)
  have h0: ?H0 by (intro allI impI) (rule handwritten_body_raises)
  have i1: ?I1 by (intro allI impI) (rule id_ocr_raises)
  have i2: ?I2 by (intro allI impI, elim conjE) (rule id_field_raises)
  have h1: ?H1 by (intro allI impI) (rule handwritten_ocr_raises)
  have h2: ?H2 by (intro allI impI, elim conjE) (rule handwritten_clean_raises)
  have h6: ?H6 by (intro allI impI, elim conjE) (rule handwritten_parse_raises)
  have h3: ?H3
  proof (intro allI impI, elim conjE)
    fix result cleaned_text e
    assume a: "analyze ''prebuilt-read'' b = Inr result"
      "clean_text_with_openai complete (ocr_text_of result) = Inr cleaned_text"
      "complete (extract_prompt cleaned_text) = Inl e"
      and c: "exc_class e \<noteq> JSONDecodeError"
    from a have "process_handwritten_document analyze complete json_loads b
           = [''error'' \<mapsto> exc_str (extract_fields_handlers False e)]"
      by (rule handwritten_request_raises)
    then show "process_handwritten_document analyze complete json_loads b
              = [''error'' \<mapsto> ''Error extracting fields with OpenAI: '' @ exc_str e]"
      by (simp only: handlers_other_message [OF c])
  qed
  have h4: ?H4
  proof (intro allI impI, elim conjE)
    fix result cleaned_text response
    assume a: "analyze ''prebuilt-read'' b = Inr result"
      "clean_text_with_openai complete (ocr_text_of result) = Inr cleaned_text"
      and c: "complete (extract_prompt cleaned_text) = Inr response"
      and d: "\<not> (startswith (remove_code_blocks (strip response)) ''{''
                \<and> endswith (remove_code_blocks (strip response)) ''}'')"
    have "extract_fields_parse json_loads (strip response)
            = Inl (Exc RuntimeError ''OpenAI response is not valid JSON.'')"
      using d by (rule extract_fields_parse_shape)
    with a c have "process_handwritten_document analyze complete json_loads b
              = [''error'' \<mapsto>
                   (if exc_class (Exc RuntimeError ''OpenAI response is not valid JSON.'') = JSONDecodeError
                    then ''Error parsing JSON from OpenAI response: ''
                    else ''Error extracting fields with OpenAI: '')
                   @ exc_str (Exc RuntimeError ''OpenAI response is not valid JSON.'')]"
      by (rule handwritten_parse_raises)
    then show "process_handwritten_document analyze complete json_loads b
              = [''error'' \<mapsto>
                   ''Error extracting fields with OpenAI: OpenAI response is not valid JSON.'']"
      by simp
  qed
  have h5: ?H5
  proof (intro allI impI, elim conjE)
    fix result cleaned_text response e
    assume a: "analyze ''prebuilt-read'' b = Inr result"
      "clean_text_with_openai complete (ocr_text_of result) = Inr cleaned_text"
      and c: "complete (extract_prompt cleaned_text) = Inr response"
      and d: "startswith (remove_code_blocks (strip response)) ''{''"
      "endswith (remove_code_blocks (strip response)) ''}''"
      "json_loads (remove_code_blocks (strip response)) = Inl e"
    have "extract_fields_parse json_loads (strip response) = Inl e"
      using d by (rule extract_fields_parse_json)
    with a c show "process_handwritten_document analyze complete json_loads b
              = [''error'' \<mapsto>
                   (if exc_class e = JSONDecodeError
                    then ''Error parsing JSON from OpenAI response: ''
                    else ''Error extracting fields with OpenAI: '') @ exc_str e]"
      by (rule handwritten_parse_raises)
  qed
  from i0 h0 i1 i2 h1 h2 h3 h4 h5 h6 show ?thesis by (intro conjI)
qed


theorem pipeline_failures_are_caught_witness:
  "process_id_document (unavailable (Exc BackendError ''timeout'')) ''scan''
     = [''error'' \<mapsto> ''timeout'']
   \<and> process_id_document
         (recognizes [\<lparr>doc_fields = [''FirstName'' \<mapsto> FieldObject (Some (PInt 5))]\<rparr>]) ''scan''
     = [''error'' \<mapsto> quoted ''int'' @ '' object has no attribute '' @ quoted ''strip'']
   \<and> process_handwritten_document (unavailable (Exc BackendError ''timeout''))
         (scripted_backend (Inr ''Ana Pop'') (Inr ''{}'')) (failing_parser ''Expecting value'') ''scan''
     = [''error'' \<mapsto> ''timeout'']
   \<and> process_handwritten_document (reads_lines [''Ana Pop''])
         (scripted_backend (Inl (Exc BackendError ''quota'')) (Inr ''{}''))
         (failing_parser ''Expecting value'') ''scan''
     = [''error'' \<mapsto> ''Error cleaning text with OpenAI: quota'']
   \<and> process_handwritten_document (reads_lines [''Ana Pop''])
         (scripted_backend (Inr ''Ana Pop'') (Inl (Exc BackendError ''quota'')))
         (failing_parser ''Expecting value'') ''scan''
     = [''error'' \<mapsto> ''Error extracting fields with OpenAI: quota'']
   \<and> process_handwritten_document (reads_lines [''Ana Pop''])
         (scripted_backend (Inr ''Ana Pop'') (Inr ''no data''))
         (failing_parser ''Expecting value'') ''scan''
     = [''error'' \<mapsto> ''Error extracting fields with OpenAI: OpenAI response is not valid JSON.'']
   \<and> process_handwritten_document (reads_lines [''Ana Pop''])
         (scripted_backend (Inr ''Ana Pop'') (Inr ''{oops}''))
         (failing_parser ''Expecting value'') ''scan''
     = [''error'' \<mapsto> ''Error parsing JSON from OpenAI response: Expecting value'']
   \<and> process_handwritten_document (reads_lines [''Ana Pop''])
         (scripted_backend (Inr ''Ana Pop'') (Inr ''{oops}''))
         (\<lambda>text. Inr (JObject [(''summary'', JNumber 1)])) ''scan''
     = [''error'' \<mapsto> ''Error extracting fields with OpenAI: '' @ quoted ''int''
                          @ '' object has no attribute '' @ quoted ''strip'']"
  (is "?W1 \<and> ?W2 \<and> ?W3 \<and> ?W4 \<and> ?W5 \<and> ?W6 \<and> ?W7 \<and> ?W8")
proof -
  let ?parser = "failing_parser ''Expecting value''"
  let ?numbers = "\<lambda>text :: string. Inr (JObject [(''summary'', JNumber 1)]) :: exc + json"
  let ?page = "\<lparr>documents = [], pages = [\<lparr>lines = [\<lparr>content = ''Ana Pop''\<rparr>]\<rparr>]\<rparr>"
  have s: "strip ''Ana Pop'' = ''Ana Pop''" "strip ''no data'' = ''no data''"
    "strip ''{oops}'' = ''{oops}''"
    by (simp_all add: strip_def py_isspace_def code_point_def)
  have n: "remove_code_blocks ''Ana Pop'' = ''Ana Pop''"
    "remove_code_blocks ''no data'' = ''no data''"
    "remove_code_blocks ''{oops}'' = ''{oops}''"
    by (simp_all add: remove_code_blocks_no_backtick s)
  have ocr: "reads_lines [''Ana Pop''] ''prebuilt-read'' ''scan'' = Inr ?page"
    by (simp add: reads_lines_def)
  have joined: "ocr_text_of ?page = ''Ana Pop''"
    by (simp add: ocr_text_of_def)
  have cl: "clean_text_with_openai (scripted_backend (Inr ''Ana Pop'') r) (ocr_text_of ?page)
              = Inr ''Ana Pop''" for r
  proof -
    have "scripted_backend (Inr ''Ana Pop'') r (clean_prompt ''Ana Pop'') = Inr ''Ana Pop''"
      by (rule scripted_backend_clean)
    then have "clean_text_with_openai (scripted_backend (Inr ''Ana Pop'') r) ''Ana Pop''
                 = Inr (remove_code_blocks (strip ''Ana Pop''))"
      by (rule clean_text_returns)
    then show ?thesis by (simp only: joined s n)
  qed
  have w1: ?W1
  proof -
    have a: "unavailable (Exc BackendError ''timeout'') ''prebuilt-idDocument'' ''scan''
            = Inl (Exc BackendError ''timeout'')"
      by (simp add: unavailable_def)
    then have b: "id_document_body (unavailable (Exc BackendError ''timeout'')) ''scan''
            = Inl (Exc BackendError ''timeout'')"
      by (simp add: id_document_body_def)
    from pipeline_failures_are_caught
           [where analyze = "unavailable (Exc BackendError ''timeout'')" and b = "''scan''",
            THEN conjunct1, rule_format, OF b]
         pipeline_failures_are_caught
           [where analyze = "unavailable (Exc BackendError ''timeout'')" and b = "''scan''",
            THEN conjunct2, THEN conjunct2, THEN conjunct1, rule_format, OF a]
    show ?thesis by simp
  qed
  have w2: ?W2
  proof -
    let ?docs = "[\<lparr>doc_fields = [''FirstName'' \<mapsto> FieldObject (Some (PInt 5))]\<rparr>]"
    have a: "recognizes ?docs ''prebuilt-idDocument'' ''scan'' = Inr \<lparr>documents = ?docs, pages = []\<rparr>"
      by (simp add: recognizes_def)
    have b: "extract_documents (documents \<lparr>documents = ?docs, pages = []\<rparr>) Map.empty
               = Inl (Exc AttributeError
                       (quoted ''int'' @ '' object has no attribute '' @ quoted ''strip''))"
      by (simp add: fields_get_def get_field_value_def)
    from pipeline_failures_are_caught
           [where analyze = "recognizes ?docs" and b = "''scan''",
            THEN conjunct2, THEN conjunct2, THEN conjunct2, THEN conjunct1, rule_format, OF conjI [OF a b]]
    show ?thesis by (simp only: exc_str.simps)
  qed
  have w3: ?W3
  proof -
    have a: "unavailable (Exc BackendError ''timeout'') ''prebuilt-read'' ''scan''
            = Inl (Exc BackendError ''timeout'')"
      by (simp add: unavailable_def)
    then have b: "handwritten_body (unavailable (Exc BackendError ''timeout''))
           (scripted_backend (Inr ''Ana Pop'') (Inr ''{}'')) ?parser ''scan''
            = Inl (Exc BackendError ''timeout'')"
      by (simp add: handwritten_body_def)
    from pipeline_failures_are_caught
           [where analyze = "unavailable (Exc BackendError ''timeout'')" and b = "''scan''"
              and complete = "scripted_backend (Inr ''Ana Pop'') (Inr ''{}'')"
              and json_loads = ?parser,
            THEN conjunct2, THEN conjunct1, rule_format, OF b]
         pipeline_failures_are_caught
           [where analyze = "unavailable (Exc BackendError ''timeout'')" and b = "''scan''",
            THEN conjunct2, THEN conjunct2, THEN conjunct2, THEN conjunct2, THEN conjunct1, rule_format, OF a]
    show ?thesis by (simp only: exc_str.simps)
  qed
  have w4: ?W4
  proof -
    have c: "scripted_backend (Inl (Exc BackendError ''quota'')) (Inr ''{}'')
               (clean_prompt (ocr_text_of ?page)) = Inl (Exc BackendError ''quota'')"
      by (rule scripted_backend_clean)
    from pipeline_failures_are_caught
           [where analyze = "reads_lines [''Ana Pop'']" and b = "''scan''"
              and complete = "scripted_backend (Inl (Exc BackendError ''quota'')) (Inr ''{}'')",
            THEN conjunct2, THEN conjunct2, THEN conjunct2, THEN conjunct2, THEN conjunct2, THEN conjunct1, rule_format, OF conjI [OF ocr c]]
    show ?thesis by simp
  qed
  have w5: ?W5
  proof -
    have c: "scripted_backend (Inr ''Ana Pop'') (Inl (Exc BackendError ''quota''))
               (extract_prompt ''Ana Pop'') = Inl (Exc BackendError ''quota'')"
      by (rule scripted_backend_extract)
    have d: "exc_class (Exc BackendError ''quota'') \<noteq> JSONDecodeError" by simp
    from pipeline_failures_are_caught
           [where analyze = "reads_lines [''Ana Pop'']" and b = "''scan''"
              and complete = "scripted_backend (Inr ''Ana Pop'') (Inl (Exc BackendError ''quota''))",
            THEN conjunct2, THEN conjunct2, THEN conjunct2, THEN conjunct2, THEN conjunct2, THEN conjunct2, THEN conjunct1, rule_format, OF conjI [OF ocr conjI [OF cl conjI [OF c d]]]]
    show ?thesis by simp
  qed
  have w6: ?W6
  proof -
    have c: "scripted_backend (Inr ''Ana Pop'') (Inr ''no data'') (extract_prompt ''Ana Pop'')
               = Inr ''no data''"
      by (rule scripted_backend_extract)
    have d: "\<not> (startswith (remove_code_blocks (strip ''no data'')) ''{''
                \<and> endswith (remove_code_blocks (strip ''no data'')) ''}'')"
      by (simp add: s n startswith_def)
    from pipeline_failures_are_caught
           [where analyze = "reads_lines [''Ana Pop'']" and b = "''scan''"
              and complete = "scripted_backend (Inr ''Ana Pop'') (Inr ''no data'')",
            THEN conjunct2, THEN conjunct2, THEN conjunct2, THEN conjunct2, THEN conjunct2, THEN conjunct2, THEN conjunct2, THEN conjunct1, rule_format, OF conjI [OF ocr conjI [OF cl conjI [OF c d]]]]
    show ?thesis .
  qed
  have c9: "scripted_backend (Inr ''Ana Pop'') (Inr ''{oops}'') (extract_prompt ''Ana Pop'')
               = Inr ''{oops}''"
    by (rule scripted_backend_extract)
  have d1: "startswith (remove_code_blocks (strip ''{oops}'')) ''{''"
    by (simp add: s n startswith_def)
  have d2: "endswith (remove_code_blocks (strip ''{oops}'')) ''}''"
    by (simp add: s n endswith_def suffix_to_prefix)
  have w7: ?W7
  proof -
    have d3: "?parser (remove_code_blocks (strip ''{oops}''))
                = Inl (Exc JSONDecodeError ''Expecting value'')"
      by (simp add: failing_parser_def)
    from pipeline_failures_are_caught
           [where analyze = "reads_lines [''Ana Pop'']" and b = "''scan''"
              and complete = "scripted_backend (Inr ''Ana Pop'') (Inr ''{oops}'')"
              and json_loads = ?parser,
            THEN conjunct2, THEN conjunct2, THEN conjunct2, THEN conjunct2, THEN conjunct2, THEN conjunct2, THEN conjunct2, THEN conjunct2, THEN conjunct1, rule_format,
            OF conjI [OF ocr conjI [OF cl conjI [OF c9 conjI [OF d1 conjI [OF d2 d3]]]]]]
    show ?thesis by simp
  qed
  have w8: ?W8
  proof -
    have d3: "extract_fields_parse ?numbers (strip ''{oops}'')
                = Inl (Exc AttributeError
                         (quoted ''int'' @ '' object has no attribute '' @ quoted ''strip''))"
      using d1 d2
      by (simp add: extract_fields_parse_def Let_def s n metadata_get_strip_def dict_get_def
            no_attribute_def)
    from pipeline_failures_are_caught
           [where analyze = "reads_lines [''Ana Pop'']" and b = "''scan''"
              and complete = "scripted_backend (Inr ''Ana Pop'') (Inr ''{oops}'')"
              and json_loads = ?numbers,
            THEN conjunct2, THEN conjunct2, THEN conjunct2, THEN conjunct2, THEN conjunct2,
            THEN conjunct2, THEN conjunct2, THEN conjunct2, THEN conjunct2, rule_format,
            OF conjI [OF ocr conjI [OF cl conjI [OF c9 d3]]]]
    show ?thesis by simp
  qed
  from w1 w2 w3 w4 w5 w6 w7 w8 show ?thesis by (intro conjI)
qed

text \<open>
  C4 fails at one input.  When the extraction request itself raises a
  \<open>JSONDecodeError\<close>, the handler for that class runs before \<open>content\<close> has a value;
  its log line raises \<open>UnboundLocalError\<close>, and that is what the pipeline returns under
  \<open>error\<close>: the message of the underlying exception (\<open>Expecting value\<close> here) is lost.
\<close>

theorem json_error_before_content_loses_message:
  "process_handwritten_document (reads_lines [''Ana Pop''])
     (scripted_backend (Inr ''Ana Pop'') (Inl (Exc JSONDecodeError ''Expecting value'')))
     (failing_parser ''Expecting value'') ''scan''
   = [''error'' \<mapsto> ''local variable '' @ quoted ''content'' @ '' referenced before assignment'']"
proof -
  let ?complete = "scripted_backend (Inr ''Ana Pop'') (Inl (Exc JSONDecodeError ''Expecting value''))"
  let ?page = "\<lparr>documents = [], pages = [\<lparr>lines = [\<lparr>content = ''Ana Pop''\<rparr>]\<rparr>]\<rparr>"
  have s: "strip ''Ana Pop'' = ''Ana Pop''"
    by (simp add: strip_def py_isspace_def code_point_def)
  have n: "remove_code_blocks ''Ana Pop'' = ''Ana Pop''"
    by (simp add: remove_code_blocks_no_backtick s)
  have ocr: "reads_lines [''Ana Pop''] ''prebuilt-read'' ''scan'' = Inr ?page"
    by (simp add: reads_lines_def)
  have joined: "ocr_text_of ?page = ''Ana Pop''"
    by (simp add: ocr_text_of_def)
  have "?complete (clean_prompt ''Ana Pop'') = Inr ''Ana Pop''"
    by (rule scripted_backend_clean)
  then have "clean_text_with_openai ?complete ''Ana Pop''
               = Inr (remove_code_blocks (strip ''Ana Pop''))"
    by (rule clean_text_returns)
  then have cl: "clean_text_with_openai ?complete (ocr_text_of ?page) = Inr ''Ana Pop''"
    by (simp only: joined s n)
  have c: "?complete (extract_prompt ''Ana Pop'') = Inl (Exc JSONDecodeError ''Expecting value'')"
    by (rule scripted_backend_extract)
  from ocr cl c have "process_handwritten_document (reads_lines [''Ana Pop'']) ?complete
       (failing_parser ''Expecting value'') ''scan''
     = [''error'' \<mapsto> exc_str (extract_fields_handlers False (Exc JSONDecodeError ''Expecting value''))]"
    by (rule handwritten_request_raises)
  then show ?thesis by (simp add: extract_fields_handlers_def json_error_handler_def)
qed

section \<open>Properties of the text normalizer\<close>

lemma closing_fence_Cons: "closing_fence @ post = newline # (''```'' @ post)"
  by (simp add: closing_fence_def)

lemma closing_fence_not_Nil: "closing_fence \<noteq> []"
  by (simp add: closing_fence_def)

lemma newline_isspace: "py_isspace newline"
  by (simp add: py_isspace_def newline_def code_point_def)

lemma lazy_group_sound:
  "lazy_group s = Some g \<Longrightarrow> \<exists>post. s = g @ closing_fence @ post"
proof (induction s arbitrary: g)
  case Nil
  then show ?case by simp
next
  case (Cons c cs)
  show ?case
  proof (cases "prefix closing_fence (c # cs)")
    case True
    with Cons.prems have "g = []" by simp
    moreover from True obtain post where "c # cs = closing_fence @ post"
      by (auto simp: prefix_def)
    ultimately show ?thesis by auto
  next
    case False
    with Cons.prems obtain g' where g': "lazy_group cs = Some g'" and g: "g = c # g'"
      by auto
    from Cons.IH [OF g'] obtain post where "cs = g' @ closing_fence @ post" by blast
    with g show ?thesis by auto
  qed
qed

lemma lazy_group_minimal:
  "lazy_group s = Some g \<Longrightarrow> s = g' @ closing_fence @ post' \<Longrightarrow> length g \<le> length g'"
proof (induction s arbitrary: g g')
  case Nil
  then show ?case by simp
next
  case (Cons c cs)
  show ?case
  proof (cases "prefix closing_fence (c # cs)")
    case True
    with Cons.prems(1) show ?thesis by simp
  next
    case False
    with Cons.prems(1) obtain g0 where g0: "lazy_group cs = Some g0" and g: "g = c # g0"
      by auto
    have "g' \<noteq> []"
    proof
      assume "g' = []"
      with Cons.prems(2) have "prefix closing_fence (c # cs)" by (simp add: prefix_def)
      with False show False by simp
    qed
    then obtain g1 where g1: "g' = c # g1" and cs: "cs = g1 @ closing_fence @ post'"
      using Cons.prems(2) by (cases g') auto
    from Cons.IH [OF g0 cs] g g1 show ?thesis by simp
  qed
qed

lemma lazy_group_complete:
  "\<exists>g. lazy_group (g' @ closing_fence @ post) = Some g"
proof (induction g')
  case Nil
  have "prefix closing_fence (newline # (''```'' @ post))"
    by (simp add: closing_fence_def)
  then show ?case by (simp add: closing_fence_Cons)
next
  case (Cons c g')
  then obtain g where "lazy_group (g' @ closing_fence @ post) = Some g" by blast
  then show ?case by simp
qed

lemma after_opener_complete:
  "list_all py_isspace ws \<Longrightarrow>
   \<exists>g. after_opener (ws @ [newline] @ inner @ closing_fence @ post) = Some g"
proof (induction ws)
  case Nil
  obtain g where "lazy_group (inner @ closing_fence @ post) = Some g"
    using lazy_group_complete by blast
  then show ?case by (cases "after_opener (inner @ closing_fence @ post)") (simp_all add: newline_isspace)
next
  case (Cons c ws)
  then obtain g where "after_opener (ws @ [newline] @ inner @ closing_fence @ post) = Some g"
    by auto
  with Cons.prems show ?case by simp
qed

text \<open>What \<open>after_opener\<close> returns: the longest whitespace, then the shortest group.\<close>

lemma after_opener_sound:
  assumes "after_opener r = Some g"
  shows "\<exists>ws post.
           r = ws @ [newline] @ g @ closing_fence @ post \<and> list_all py_isspace ws
         \<and> (\<forall>ws' inner' post'.
               r = ws' @ [newline] @ inner' @ closing_fence @ post' \<and> list_all py_isspace ws'
               \<longrightarrow> length ws' \<le> length ws
                   \<and> (length ws' = length ws \<longrightarrow> length g \<le> length inner'))"
  using assms
proof (induction r)
  case Nil
  then show ?case by simp
next
  case (Cons c cs)
  show ?case
  proof (cases "py_isspace c \<and> after_opener cs \<noteq> None")
    case True
    then have sp: "py_isspace c" and rec: "after_opener cs = Some g"
      using Cons.prems by auto
    from Cons.IH [OF rec] obtain ws post where
      eq: "cs = ws @ [newline] @ g @ closing_fence @ post" and ws: "list_all py_isspace ws"
      and mx: "\<And>ws' inner' post'.
               cs = ws' @ [newline] @ inner' @ closing_fence @ post' \<Longrightarrow> list_all py_isspace ws'
               \<Longrightarrow> length ws' \<le> length ws
                   \<and> (length ws' = length ws \<longrightarrow> length g \<le> length inner')"
      by blast
    have "length ws' \<le> length (c # ws)
            \<and> (length ws' = length (c # ws) \<longrightarrow> length g \<le> length inner')"
      if d: "c # cs = ws' @ [newline] @ inner' @ closing_fence @ post'"
        and sp': "list_all py_isspace ws'" for ws' inner' post'
    proof (cases ws')
      case Nil
      then show ?thesis by simp
    next
      case (Cons c' ws'')
      with d sp' have "cs = ws'' @ [newline] @ inner' @ closing_fence @ post'"
        and "list_all py_isspace ws''" by auto
      from mx [OF this] Cons show ?thesis by simp
    qed
    moreover have "c # cs = (c # ws) @ [newline] @ g @ closing_fence @ post"
      using eq by simp
    moreover have "list_all py_isspace (c # ws)" using sp ws by simp
    ultimately show ?thesis by blast
  next
    case False
    then have stop: "(if py_isspace c then after_opener cs else None) = None" by auto
    with Cons.prems have nl: "c = newline" and lz: "lazy_group cs = Some g"
      by (auto split: if_splits)
    from lazy_group_sound [OF lz] obtain post where eq: "cs = g @ closing_fence @ post"
      by blast
    have "length ws' \<le> length ([] :: string)
            \<and> (length ws' = length ([] :: string) \<longrightarrow> length g \<le> length inner')"
      if d: "c # cs = ws' @ [newline] @ inner' @ closing_fence @ post'"
        and sp': "list_all py_isspace ws'" for ws' inner' post'
    proof (cases ws')
      case Nil
      with d have "cs = inner' @ closing_fence @ post'" by simp
      from lazy_group_minimal [OF lz this] Nil show ?thesis by simp
    next
      case (Cons c' ws'')
      with d sp' have cs: "cs = ws'' @ [newline] @ inner' @ closing_fence @ post'"
        and "list_all py_isspace ws''" and "py_isspace c" by auto
      then have "after_opener cs \<noteq> None"
        using after_opener_complete [of ws'' inner' post'] by auto
      with False \<open>py_isspace c\<close> show ?thesis by simp
    qed
    moreover have "c # cs = [] @ [newline] @ g @ closing_fence @ post"
      using eq nl by simp
    moreover have "list_all py_isspace ([] :: string)" by simp
    ultimately show ?thesis by blast
  qed
qed

lemma re_search_fence_complete:
  assumes "has_block opener s"
  shows "\<exists>g. re_search_fence opener s = Some g"
proof -
  from assms obtain pre ws inner post where
    s: "s = pre @ opener @ ws @ [newline] @ inner @ closing_fence @ post"
    and ws: "list_all py_isspace ws"
    by (auto simp: has_block_def)
  have "\<exists>g. re_search_fence opener (pre @ opener @ ws @ [newline] @ inner @ closing_fence @ post) = Some g"
  proof (induction pre)
    case Nil
    let ?r = "ws @ [newline] @ inner @ closing_fence @ post"
    obtain g where g: "after_opener ?r = Some g"
      using after_opener_complete [OF ws] by blast
    have ne: "opener @ ?r \<noteq> []" by simp
    then obtain c cs where cs: "opener @ ?r = c # cs" by (cases "opener @ ?r") auto
    have "prefix opener (c # cs)" unfolding cs [symmetric] by simp
    moreover have "drop (length opener) (c # cs) = ?r" unfolding cs [symmetric] by simp
    ultimately have "re_search_fence opener (c # cs) = Some g" using g by simp
    then show ?case using cs by simp
  next
    case (Cons c pre)
    then show ?case by (simp split: option.splits)
  qed
  with s show ?thesis by simp
qed

text \<open>What \<open>re.search\<close> returns is the content of the first block.\<close>

lemma re_search_fence_sound:
  assumes "re_search_fence opener s = Some g"
  shows "first_block opener s g"
  using assms
proof (induction s)
  case Nil
  then show ?case by simp
next
  case (Cons c cs)
  let ?t = "c # cs"
  show ?case
  proof (cases "prefix opener ?t \<and> after_opener (drop (length opener) ?t) \<noteq> None")
    case True
    then have pf: "prefix opener ?t" and ao: "after_opener (drop (length opener) ?t) = Some g"
      using Cons.prems by auto
    from pf have t: "?t = opener @ drop (length opener) ?t"
      by (metis append_eq_conv_conj prefix_def)
    from after_opener_sound [OF ao] obtain ws post where
      eq: "drop (length opener) ?t = ws @ [newline] @ g @ closing_fence @ post"
      and ws: "list_all py_isspace ws"
      and mx: "\<And>ws' inner' post'.
               drop (length opener) ?t = ws' @ [newline] @ inner' @ closing_fence @ post'
               \<Longrightarrow> list_all py_isspace ws'
               \<Longrightarrow> length ws' \<le> length ws
                   \<and> (length ws' = length ws \<longrightarrow> length g \<le> length inner')"
      by blast
    have here: "?t = [] @ opener @ ws @ [newline] @ g @ closing_fence @ post"
      using t eq by simp
    have "length ([] :: string) \<le> length pre'
            \<and> (length pre' = length ([] :: string)
                 \<longrightarrow> length ws' \<le> length ws
                     \<and> (length ws' = length ws \<longrightarrow> length g \<le> length inner'))"
      if d: "?t = pre' @ opener @ ws' @ [newline] @ inner' @ closing_fence @ post'"
        and sp: "list_all py_isspace ws'" for pre' ws' inner' post'
    proof (cases pre')
      case Nil
      with d have "drop (length opener) ?t = ws' @ [newline] @ inner' @ closing_fence @ post'"
        by simp
      from mx [OF this sp] Nil show ?thesis by simp
    next
      case (Cons a list)
      then show ?thesis by simp
    qed
    with here ws show ?thesis unfolding first_block_def by blast
  next
    case False
    then have skip: "(if prefix opener ?t then after_opener (drop (length opener) ?t) else None)
                       = None" by auto
    with Cons.prems have rec: "re_search_fence opener cs = Some g" by simp
    from Cons.IH [OF rec] obtain pre ws post where
      eq: "cs = pre @ opener @ ws @ [newline] @ g @ closing_fence @ post"
      and ws: "list_all py_isspace ws"
      and mn: "\<And>pre' ws' inner' post'.
              cs = pre' @ opener @ ws' @ [newline] @ inner' @ closing_fence @ post'
              \<Longrightarrow> list_all py_isspace ws'
              \<Longrightarrow> length pre \<le> length pre'
                  \<and> (length pre' = length pre
                       \<longrightarrow> length ws' \<le> length ws
                           \<and> (length ws' = length ws \<longrightarrow> length g \<le> length inner'))"
      unfolding first_block_def by blast
    have here: "?t = (c # pre) @ opener @ ws @ [newline] @ g @ closing_fence @ post"
      using eq by simp
    have "length (c # pre) \<le> length pre'
            \<and> (length pre' = length (c # pre)
                 \<longrightarrow> length ws' \<le> length ws
                     \<and> (length ws' = length ws \<longrightarrow> length g \<le> length inner'))"
      if d: "?t = pre' @ opener @ ws' @ [newline] @ inner' @ closing_fence @ post'"
        and sp: "list_all py_isspace ws'" for pre' ws' inner' post'
    proof (cases pre')
      case Nil
      with d have t: "?t = opener @ (ws' @ [newline] @ inner' @ closing_fence @ post')" by simp
      then have "prefix opener ?t" by (metis prefixI)
      moreover from t have "drop (length opener) ?t = ws' @ [newline] @ inner' @ closing_fence @ post'"
        by (metis append_eq_conv_conj)
      then have "after_opener (drop (length opener) ?t) \<noteq> None"
        using after_opener_complete [OF sp, of inner' post'] by auto
      ultimately show ?thesis using False by blast
    next
      case (Cons a pre'')
      with d have "cs = pre'' @ opener @ ws' @ [newline] @ inner' @ closing_fence @ post'"
        by simp
      from mn [OF this sp] Cons show ?thesis by simp
    qed
    with here ws show ?thesis unfolding first_block_def by blast
  qed
qed

lemma first_block_has_block: "first_block opener s g \<Longrightarrow> has_block opener s"
  unfolding first_block_def has_block_def by blast

lemma re_search_fence_None_iff:
  "re_search_fence opener s = None \<longleftrightarrow> \<not> has_block opener s"
proof
  assume "re_search_fence opener s = None"
  then show "\<not> has_block opener s" using re_search_fence_complete by fastforce
next
  assume n: "\<not> has_block opener s"
  show "re_search_fence opener s = None"
  proof (cases "re_search_fence opener s")
    case None
    then show ?thesis .
  next
    case (Some g)
    then have "has_block opener s"
      by (intro first_block_has_block re_search_fence_sound)
    with n show ?thesis by simp
  qed
qed

lemma first_block_unique:
  assumes a: "first_block opener s g" and b: "first_block opener s g'"
  shows "g = g'"
proof -
  from a obtain pre ws post where
    eq: "s = pre @ opener @ ws @ [newline] @ g @ closing_fence @ post"
    and ws: "list_all py_isspace ws"
    and mn: "\<And>pre' ws' inner' post'.
              s = pre' @ opener @ ws' @ [newline] @ inner' @ closing_fence @ post'
              \<Longrightarrow> list_all py_isspace ws'
              \<Longrightarrow> length pre \<le> length pre'
                  \<and> (length pre' = length pre
                       \<longrightarrow> length ws' \<le> length ws
                           \<and> (length ws' = length ws \<longrightarrow> length g \<le> length inner'))"
    unfolding first_block_def by blast
  from b obtain pre' ws' post' where
    eq': "s = pre' @ opener @ ws' @ [newline] @ g' @ closing_fence @ post'"
    and ws': "list_all py_isspace ws'"
    and mn': "\<And>pre ws inner post.
              s = pre @ opener @ ws @ [newline] @ inner @ closing_fence @ post
              \<Longrightarrow> list_all py_isspace ws
              \<Longrightarrow> length pre' \<le> length pre
                  \<and> (length pre = length pre'
                       \<longrightarrow> length ws \<le> length ws'
                           \<and> (length ws = length ws' \<longrightarrow> length g' \<le> length inner))"
    unfolding first_block_def by blast
  note m1 = mn [OF eq' ws'] and m2 = mn' [OF eq ws]
  from m1 m2 have lp: "length pre = length pre'" by auto
  from m1 m2 lp have lw: "length ws = length ws'" by auto
  from m1 m2 lp lw have lg: "length g = length g'" by auto
  from eq eq' have "pre @ opener @ ws @ [newline] @ g @ closing_fence @ post
                  = pre' @ opener @ ws' @ [newline] @ g' @ closing_fence @ post'" by simp
  with lp have "ws @ [newline] @ g @ closing_fence @ post
              = ws' @ [newline] @ g' @ closing_fence @ post'" by simp
  with lw have "g @ closing_fence @ post = g' @ closing_fence @ post'" by simp
  with lg show ?thesis by simp
qed

text \<open>
  C5.  The result is decided in the order of the source.  When the text has a
  \<^verbatim>\<open>```json\<close> block, the result is the trimmed content of the first such block, whether
  or not a generic block is there too; otherwise, when it has a generic block, the trimmed
  content of the first of those; otherwise the whole text trimmed.
\<close>

theorem remove_code_blocks_search_order:
  "(has_block ''```json'' t
      \<longrightarrow> (\<exists>inner. first_block ''```json'' t inner)
          \<and> (\<forall>inner. first_block ''```json'' t inner \<longrightarrow> remove_code_blocks t = strip inner))
   \<and> (\<not> has_block ''```json'' t \<and> has_block ''```'' t
      \<longrightarrow> (\<exists>inner. first_block ''```'' t inner)
          \<and> (\<forall>inner. first_block ''```'' t inner \<longrightarrow> remove_code_blocks t = strip inner))
   \<and> (\<not> has_block ''```json'' t \<and> \<not> has_block ''```'' t
      \<longrightarrow> remove_code_blocks t = strip t)"
  (is "?tagged \<and> ?generic \<and> ?plain")
proof -
  have tagged: ?tagged
  proof
    assume "has_block ''```json'' t"
    then obtain g where g: "re_search_fence ''```json'' t = Some g"
      using re_search_fence_complete by blast
    then have fb: "first_block ''```json'' t g" by (rule re_search_fence_sound)
    have "remove_code_blocks t = strip inner" if "first_block ''```json'' t inner" for inner
    proof -
      from that fb have "inner = g" by (rule first_block_unique)
      with g show ?thesis by (simp add: remove_code_blocks_def)
    qed
    with fb show "(\<exists>inner. first_block ''```json'' t inner)
          \<and> (\<forall>inner. first_block ''```json'' t inner \<longrightarrow> remove_code_blocks t = strip inner)"
      by blast
  qed
  have generic: ?generic
  proof
    assume h: "\<not> has_block ''```json'' t \<and> has_block ''```'' t"
    then have none: "re_search_fence ''```json'' t = None"
      by (simp add: re_search_fence_None_iff)
    from h obtain g where g: "re_search_fence ''```'' t = Some g"
      using re_search_fence_complete by blast
    then have fb: "first_block ''```'' t g" by (rule re_search_fence_sound)
    have "remove_code_blocks t = strip inner" if "first_block ''```'' t inner" for inner
    proof -
      from that fb have "inner = g" by (rule first_block_unique)
      with g none show ?thesis by (simp add: remove_code_blocks_def)
    qed
    with fb show "(\<exists>inner. first_block ''```'' t inner)
          \<and> (\<forall>inner. first_block ''```'' t inner \<longrightarrow> remove_code_blocks t = strip inner)"
      by blast
  qed
  have plain: ?plain
  proof
    assume "\<not> has_block ''```json'' t \<and> \<not> has_block ''```'' t"
    then have "re_search_fence ''```json'' t = None" and "re_search_fence ''```'' t = None"
      by (simp_all add: re_search_fence_None_iff)
    then show "remove_code_blocks t = strip t" by (simp add: remove_code_blocks_def)
  qed
  from tagged generic plain show ?thesis by (intro conjI)
qed

theorem remove_code_blocks_search_order_witness:
  "has_block ''```json''
     (''```'' @ [newline] @ ''x'' @ [newline] @ ''``` ```json'' @ [newline] @ ''y'' @ [newline] @ ''```'')
   \<and> has_block ''```''
     (''```'' @ [newline] @ ''x'' @ [newline] @ ''``` ```json'' @ [newline] @ ''y'' @ [newline] @ ''```'')
   \<and> remove_code_blocks
     (''```'' @ [newline] @ ''x'' @ [newline] @ ''``` ```json'' @ [newline] @ ''y'' @ [newline] @ ''```'')
       = ''y''
   \<and> \<not> has_block ''```json'' (''```'' @ [newline] @ ''raw'' @ [newline] @ ''```'')
   \<and> has_block ''```'' (''```'' @ [newline] @ ''raw'' @ [newline] @ ''```'')
   \<and> remove_code_blocks (''```'' @ [newline] @ ''raw'' @ [newline] @ ''```'') = ''raw''
   \<and> \<not> has_block ''```json'' ''  plain text ''
   \<and> \<not> has_block ''```'' ''  plain text ''
   \<and> remove_code_blocks ''  plain text '' = ''plain text''"
proof -
  let ?t1 = "''```'' @ [newline] @ ''x'' @ [newline] @ ''``` ```json'' @ [newline] @ ''y'' @ [newline] @ ''```''"
  let ?t2 = "''```'' @ [newline] @ ''raw'' @ [newline] @ ''```''"
  let ?t3 = "''  plain text ''"
  note ev = newline_def closing_fence_def py_isspace_def code_point_def
  have s: "strip ''y'' = ''y''" "strip ''raw'' = ''raw''" "strip ?t3 = ''plain text''"
    by (simp_all add: strip_def py_isspace_def code_point_def)
  have j1: "re_search_fence ''```json'' ?t1 = Some ''y''" by (simp add: ev)
  have g1: "re_search_fence ''```'' ?t1 = Some ''x''" by (simp add: ev)
  have j2: "re_search_fence ''```json'' ?t2 = None" by (simp add: ev)
  have g2: "re_search_fence ''```'' ?t2 = Some ''raw''" by (simp add: ev)
  have j3: "re_search_fence ''```json'' ?t3 = None" by (simp add: re_search_fence_absent)
  have g3: "re_search_fence ''```'' ?t3 = None" by (simp add: re_search_fence_absent)
  have fj1: "first_block ''```json'' ?t1 ''y''" using j1 by (rule re_search_fence_sound)
  have fg2: "first_block ''```'' ?t2 ''raw''" using g2 by (rule re_search_fence_sound)
  have hj1: "has_block ''```json'' ?t1" using fj1 by (rule first_block_has_block)
  have hg1: "has_block ''```'' ?t1"
    using g1 by (intro first_block_has_block re_search_fence_sound)
  have nj2: "\<not> has_block ''```json'' ?t2" by (rule re_search_fence_None_iff [THEN iffD1, OF j2])
  have hg2: "has_block ''```'' ?t2" using fg2 by (rule first_block_has_block)
  have nj3: "\<not> has_block ''```json'' ?t3" by (rule re_search_fence_None_iff [THEN iffD1, OF j3])
  have ng3: "\<not> has_block ''```'' ?t3" by (rule re_search_fence_None_iff [THEN iffD1, OF g3])
  have r1: "remove_code_blocks ?t1 = ''y''"
    using remove_code_blocks_search_order
            [of ?t1, THEN conjunct1, THEN mp, OF hj1, THEN conjunct2, THEN spec, THEN mp, OF fj1]
    by (simp only: s)
  have r2: "remove_code_blocks ?t2 = ''raw''"
    using remove_code_blocks_search_order
            [of ?t2, THEN conjunct2, THEN conjunct1, THEN mp, OF conjI [OF nj2 hg2],
             THEN conjunct2, THEN spec, THEN mp, OF fg2]
    by (simp only: s)
  have r3: "remove_code_blocks ?t3 = ''plain text''"
    using remove_code_blocks_search_order
            [of ?t3, THEN conjunct2, THEN conjunct2, THEN mp, OF conjI [OF nj3 ng3]]
    by (simp only: s)
  from hj1 hg1 r1 nj2 hg2 r2 nj3 ng3 r3 show ?thesis by (intro conjI)
qed

text \<open>Stripping: the result is a piece of the text, and stripping twice changes nothing.\<close>

lemma strip_sublist: "sublist (strip s) s"
proof -
  let ?u = "dropWhile py_isspace s"
  have "suffix (dropWhile py_isspace (rev ?u)) (rev ?u)" by (rule suffix_dropWhile)
  then have "prefix (strip s) ?u" by (simp add: strip_def suffix_to_prefix)
  moreover have "suffix ?u s" by (rule suffix_dropWhile)
  ultimately show ?thesis
    by (meson prefix_imp_sublist sublist_order.order.trans suffix_imp_sublist)
qed

lemma dropWhile_id: "xs = [] \<or> \<not> P (hd xs) \<Longrightarrow> dropWhile P xs = xs"
  by (cases xs) auto

lemma prefix_hd:
  assumes "prefix xs ys" and "xs \<noteq> []"
  shows "hd xs = hd ys" and "ys \<noteq> []"
proof -
  from assms obtain x xs' zs where "xs = x # xs'" and "ys = (x # xs') @ zs"
    by (cases xs) (auto simp: prefix_def)
  then show "hd xs = hd ys" and "ys \<noteq> []" by simp_all
qed

lemma strip_idem: "strip (strip s) = strip s"
proof -
  let ?u = "dropWhile py_isspace s"
  let ?v = "dropWhile py_isspace (rev ?u)"
  have v: "strip s = rev ?v" by (simp add: strip_def)
  have pv: "prefix (rev ?v) ?u"
    using suffix_dropWhile [of py_isspace "rev ?u"] by (simp add: suffix_to_prefix)
  have "rev ?v = [] \<or> \<not> py_isspace (hd (rev ?v))"
  proof (cases "rev ?v = []")
    case True
    then show ?thesis by simp
  next
    case False
    with pv have "hd (rev ?v) = hd ?u" and "?u \<noteq> []"
      by (rule prefix_hd)+
    moreover from \<open>?u \<noteq> []\<close> have "\<not> py_isspace (hd ?u)" by (rule hd_dropWhile)
    ultimately show ?thesis by simp
  qed
  then have a: "dropWhile py_isspace (rev ?v) = rev ?v" by (rule dropWhile_id)
  have b: "dropWhile py_isspace ?v = ?v" by simp
  have "strip (rev ?v) = rev (dropWhile py_isspace (rev (dropWhile py_isspace (rev ?v))))"
    by (simp only: strip_def)
  also have "\<dots> = rev (dropWhile py_isspace (rev (rev ?v)))" by (simp only: a)
  also have "\<dots> = rev ?v" by (simp only: rev_rev_ident b)
  finally show ?thesis by (simp only: v)
qed

lemma has_block_fence: "has_block opener s \<Longrightarrow> sublist closing_fence s"
proof -
  assume "has_block opener s"
  then obtain pre ws inner post where
    "s = (pre @ opener @ ws @ [newline] @ inner) @ closing_fence @ post"
    by (auto simp: has_block_def)
  then show ?thesis unfolding sublist_def by blast
qed

lemma has_block_sublist:
  assumes "has_block opener s" and "sublist s t"
  shows "has_block opener t"
proof -
  from assms(1) obtain pre ws inner post where
    s: "s = pre @ opener @ ws @ [newline] @ inner @ closing_fence @ post"
    and ws: "list_all py_isspace ws"
    by (auto simp: has_block_def)
  from assms(2) obtain a b where "t = a @ s @ b" by (auto simp: sublist_def)
  with s have "t = (a @ pre) @ opener @ ws @ [newline] @ inner @ closing_fence @ (post @ b)"
    by simp
  with ws show ?thesis unfolding has_block_def by blast
qed

lemma first_block_no_fence:
  assumes "first_block opener s g"
  shows "\<not> sublist closing_fence g"
proof
  assume "sublist closing_fence g"
  then obtain a b where g: "g = a @ closing_fence @ b" by (auto simp: sublist_def)
  from assms obtain pre ws post where
    eq: "s = pre @ opener @ ws @ [newline] @ g @ closing_fence @ post"
    and ws: "list_all py_isspace ws"
    and mn: "\<And>pre' ws' inner' post'.
              s = pre' @ opener @ ws' @ [newline] @ inner' @ closing_fence @ post'
              \<Longrightarrow> list_all py_isspace ws'
              \<Longrightarrow> length pre \<le> length pre'
                  \<and> (length pre' = length pre
                       \<longrightarrow> length ws' \<le> length ws
                           \<and> (length ws' = length ws \<longrightarrow> length g \<le> length inner'))"
    unfolding first_block_def by blast
  from eq g have "s = pre @ opener @ ws @ [newline] @ a @ closing_fence @ (b @ closing_fence @ post)"
    by simp
  from mn [OF this ws] have "length g \<le> length a" by simp
  with g closing_fence_not_Nil show False by simp
qed

lemma no_fence_passthrough:
  assumes "\<not> sublist closing_fence s"
  shows "remove_code_blocks s = strip s"
proof -
  from assms have "\<not> has_block ''```json'' s" and "\<not> has_block ''```'' s"
    using has_block_fence by blast+
  then have "re_search_fence ''```json'' s = None" and "re_search_fence ''```'' s = None"
    by (simp_all add: re_search_fence_None_iff)
  then show ?thesis by (simp add: remove_code_blocks_def)
qed

lemma strip_group_fixed:
  assumes "re_search_fence opener t = Some g"
  shows "remove_code_blocks (strip g) = strip g"
proof -
  from assms have "first_block opener t g" by (rule re_search_fence_sound)
  then have "\<not> sublist closing_fence g" by (rule first_block_no_fence)
  then have "\<not> sublist closing_fence (strip g)"
    using strip_sublist [of g] by (meson sublist_order.order.trans)
  then have "remove_code_blocks (strip g) = strip (strip g)" by (rule no_fence_passthrough)
  then show ?thesis by (simp only: strip_idem)
qed

text \<open>
  C6.  The normalizer is idempotent.  A returned group holds no closing fence (it is the
  shortest one), so nothing matches in it again; and when nothing matches in a text,
  nothing matches in the text stripped.
\<close>

theorem remove_code_blocks_idempotent:
  "remove_code_blocks (remove_code_blocks t) = remove_code_blocks t"
proof (cases "re_search_fence ''```json'' t")
  case (Some g)
  then have r: "remove_code_blocks t = strip g" by (simp add: remove_code_blocks_def)
  from Some show ?thesis unfolding r by (rule strip_group_fixed)
next
  case None
  show ?thesis
  proof (cases "re_search_fence ''```'' t")
    case (Some g)
    with None have r: "remove_code_blocks t = strip g" by (simp add: remove_code_blocks_def)
    from Some show ?thesis unfolding r by (rule strip_group_fixed)
  next
    case none: None
    with None have r: "remove_code_blocks t = strip t" by (simp add: remove_code_blocks_def)
    have "\<not> has_block ''```json'' (strip t)"
      using None has_block_sublist [OF _ strip_sublist [of t]]
      by (auto simp: re_search_fence_None_iff)
    moreover have "\<not> has_block ''```'' (strip t)"
      using none has_block_sublist [OF _ strip_sublist [of t]]
      by (auto simp: re_search_fence_None_iff)
    ultimately have "re_search_fence ''```json'' (strip t) = None"
      and "re_search_fence ''```'' (strip t) = None"
      by (simp_all add: re_search_fence_None_iff)
    then have "remove_code_blocks (strip t) = strip (strip t)"
      by (simp add: remove_code_blocks_def)
    then show ?thesis unfolding r by (simp only: strip_idem)
  qed
qed

end
